theory Spec2Isabelle
  imports Complex_Main "HOL-Library.Sublist"
begin

section \<open>JavaScript values\<close>

text \<open>
  A JavaScript number is a double. The finite doubles are read as reals (rounding is
  not modelled); the three special values are kept, because \<open>typeof NaN\<close> is
  \<open>'number'\<close> and \<open>Math.max\<close> propagates \<open>NaN\<close>.
\<close>

datatype jsnum = NaN | NegInf | PosInf | Fin real

fun Math_max :: "jsnum \<Rightarrow> jsnum \<Rightarrow> jsnum" where
  "Math_max NaN y = NaN"
| "Math_max x NaN = NaN"
| "Math_max PosInf y = PosInf"
| "Math_max x PosInf = PosInf"
| "Math_max NegInf y = y"
| "Math_max x NegInf = x"
| "Math_max (Fin a) (Fin b) = Fin (max a b)"

fun js_add :: "jsnum \<Rightarrow> jsnum \<Rightarrow> jsnum" where
  "js_add NaN y = NaN"
| "js_add x NaN = NaN"
| "js_add PosInf NegInf = NaN"
| "js_add NegInf PosInf = NaN"
| "js_add PosInf y = PosInf"
| "js_add x PosInf = PosInf"
| "js_add NegInf y = NegInf"
| "js_add x NegInf = NegInf"
| "js_add (Fin a) (Fin b) = Fin (a + b)"

text \<open>The comparison \<open>x < y\<close> of JavaScript: false as soon as one side is \<open>NaN\<close>.\<close>

fun js_lt :: "jsnum \<Rightarrow> jsnum \<Rightarrow> bool" where
  "js_lt NaN y = False"
| "js_lt x NaN = False"
| "js_lt PosInf y = False"
| "js_lt x PosInf = True"
| "js_lt x NegInf = False"
| "js_lt NegInf y = True"
| "js_lt (Fin a) (Fin b) = (a < b)"

text \<open>\<open>ToBoolean\<close> on a number: \<open>0\<close> and \<open>NaN\<close> are falsy.\<close>

fun num_truthy :: "jsnum \<Rightarrow> bool" where
  "num_truthy NaN = False"
| "num_truthy (Fin a) = (a \<noteq> 0)"
| "num_truthy x = True"

text \<open>
  The values that travel in a \<open>postMessage\<close>: primitives and plain objects, an object
  being its list of own properties.
\<close>

datatype jsval =
    JUndefined
  | JNull
  | JBool bool
  | JNumber jsnum
  | JString string
  | JObject "(string \<times> jsval) list"

fun truthy :: "jsval \<Rightarrow> bool" where
  "truthy JUndefined = False"
| "truthy JNull = False"
| "truthy (JBool b) = b"
| "truthy (JNumber n) = num_truthy n"
| "truthy (JString s) = (s \<noteq> [])"
| "truthy (JObject kvs) = True"

text \<open>
  The property read \<open>v?.k\<close>: \<open>undefined\<close> on \<open>null\<close> and \<open>undefined\<close>, on a
  primitive (none of the keys read here is a property of a primitive wrapper) and on an
  object without the key.
\<close>

fun get_prop :: "jsval \<Rightarrow> string \<Rightarrow> jsval" where
  "get_prop (JObject kvs) k = (case map_of kvs k of Some v \<Rightarrow> v | None \<Rightarrow> JUndefined)"
| "get_prop v k = JUndefined"

text \<open>The nullish coalescing \<open>v ?? d\<close>.\<close>

fun nullish_or :: "jsval \<Rightarrow> jsval \<Rightarrow> jsval" where
  "nullish_or JUndefined d = d"
| "nullish_or JNull d = d"
| "nullish_or v d = v"

section \<open>Strings\<close>

text \<open>
  A string is the list of its code units; \<open>includes\<close>, \<open>replace\<close> and \<open>join\<close>
  only compare and move code units, so the element type does not matter.
\<close>

text \<open>\<open>Array.prototype.join\<close> on an array of strings.\<close>

fun join :: "string \<Rightarrow> string list \<Rightarrow> string" where
  "join sep [] = []"
| "join sep [x] = x"
| "join sep (x # y # ys) = x @ sep @ join sep (y # ys)"

text \<open>\<open>String.prototype.includes\<close>: the needle occurs at some position.\<close>

fun includes_str :: "string \<Rightarrow> string \<Rightarrow> bool" where
  "includes_str [] n = (n = [])"
| "includes_str (c # cs) n = (prefix n (c # cs) \<or> includes_str cs n)"

text \<open>
  The search of \<open>String.prototype.replace\<close> with a string pattern: the text before and
  after the leftmost occurrence of the needle, if there is one.
\<close>

fun split_first :: "string \<Rightarrow> string \<Rightarrow> (string \<times> string) option" where
  "split_first n [] = (if n = [] then Some ([], []) else None)"
| "split_first n (c # cs) =
     (if prefix n (c # cs) then Some ([], drop (length n) (c # cs))
      else map_option (\<lambda>(pre, post). (c # pre, post)) (split_first n cs))"

text \<open>
  \<open>GetSubstitution\<close> for a string pattern (no captures): in the replacement text
  \<open>$$\<close> is a dollar sign, \<open>$&\<close> the matched text, \<open>$`\<close> the text before the match and
  \<open>$'\<close> the text after it; every other dollar sign stands for itself.
\<close>

fun GetSubstitution :: "string \<Rightarrow> string \<Rightarrow> string \<Rightarrow> string \<Rightarrow> string" where
  "GetSubstitution m pre post [] = []"
| "GetSubstitution m pre post [c] = [c]"
| "GetSubstitution m pre post (c # d # r) =
     (if c = CHR ''$'' \<and> d = CHR ''$'' then CHR ''$'' # GetSubstitution m pre post r
      else if c = CHR ''$'' \<and> d = CHR ''&'' then m @ GetSubstitution m pre post r
      else if c = CHR ''$'' \<and> d = CHR 0x60 then pre @ GetSubstitution m pre post r
      else if c = CHR ''$'' \<and> d = CHR 0x27 then post @ GetSubstitution m pre post r
      else c # GetSubstitution m pre post (d # r))"

definition replace :: "string \<Rightarrow> string \<Rightarrow> string \<Rightarrow> string" where
  "replace s n r =
     (case split_first n s of
        None \<Rightarrow> s
      | Some (pre, post) \<Rightarrow> pre @ GetSubstitution n pre post r @ post)"

section \<open>FullHeightIframe.svelte: props and the sandbox attribute\<close>

record props =
  allowScripts :: bool
  allowForms :: bool
  allowSameOrigin :: bool
  allowPopups :: bool
  allowDownloads :: bool
  initialHeight :: "jsnum option"
  payload :: jsval

definition default_props :: props where
  "default_props =
     \<lparr> allowScripts = True, allowForms = False, allowSameOrigin = False,
       allowPopups = False, allowDownloads = True, initialHeight = None,
       payload = JNull \<rparr>"

text \<open>
  \<open>flag && 'token'\<close> is \<open>false\<close> or the token: \<open>None\<close> stands for \<open>false\<close>.
  \<open>filter(Boolean)\<close> keeps the truthy entries, the non-empty strings.
\<close>

definition js_and :: "bool \<Rightarrow> string \<Rightarrow> string option" where
  "js_and b s = (if b then Some s else None)"

fun filter_Boolean :: "string option list \<Rightarrow> string list" where
  "filter_Boolean [] = []"
| "filter_Boolean (None # xs) = filter_Boolean xs"
| "filter_Boolean (Some s # xs) = (if s = [] then filter_Boolean xs else s # filter_Boolean xs)"

text \<open>The derived \<open>sandbox\<close>; \<open>None\<close> is \<open>undefined\<close>, what \<open>'' || undefined\<close> gives.\<close>

definition sandbox :: "props \<Rightarrow> string option" where
  "sandbox p =
     (let s = join '' ''
                (filter_Boolean
                   [ js_and (allowScripts p) ''allow-scripts'',
                     js_and (allowForms p) ''allow-forms'',
                     js_and (allowSameOrigin p) ''allow-same-origin'',
                     js_and (allowPopups p) ''allow-popups'',
                     js_and (allowDownloads p) ''allow-downloads'' ])
      in if s = [] then None else Some s)"

text \<open>Splitting an attribute value at a separator character, to read its tokens back.\<close>

fun split_on :: "char \<Rightarrow> string \<Rightarrow> string list" where
  "split_on sep [] = [[]]"
| "split_on sep (c # cs) =
     (if c = sep then [] # split_on sep cs
      else (case split_on sep cs of
              [] \<Rightarrow> [[c]]
            | w # ws \<Rightarrow> (c # w) # ws))"

section \<open>FullHeightIframe.svelte: processHtmlForDeps\<close>

definition alpineDirectives :: "string list" where
  "alpineDirectives =
     [ ''x-data'', ''x-init'', ''x-show'', ''x-bind'', ''x-on'', ''x-text'', ''x-html'',
       ''x-model'', ''x-modelable'', ''x-ref'', ''x-for'', ''x-if'', ''x-effect'',
       ''x-transition'', ''x-cloak'', ''x-ignore'', ''x-teleport'', ''x-id'' ]"

definition chartJsDirectives :: "string list" where
  "chartJsDirectives = [ ''new Chart('', ''Chart.'' ]"

text \<open>\<open>directives.some((dir) => html.includes(dir))\<close>\<close>

definition hasAlpineDirectives :: "string \<Rightarrow> bool" where
  "hasAlpineDirectives html = list_ex (\<lambda>dir. includes_str html dir) alpineDirectives"

definition hasChartJsDirectives :: "string \<Rightarrow> bool" where
  "hasChartJsDirectives html = list_ex (\<lambda>dir. includes_str html dir) chartJsDirectives"

text \<open>
  What the two \<open>try\<close> blocks meet. \<open>alpine_import\<close> is \<open>Some url\<close> when the import of
  the Alpine source, the \<open>Blob\<close> and \<open>URL.createObjectURL\<close> succeed, \<open>url\<close> being the
  object URL; \<open>None\<close> when one of them throws. \<open>chart_import\<close> tells whether the import
  of \<open>chart.js/auto\<close> resolves.
\<close>

record deps_env =
  alpine_import :: "string option"
  chart_import :: bool

datatype deps_effect = SetWindowChart | ConsoleError string

definition alpineTag :: "string \<Rightarrow> string" where
  \<open>alpineTag alpineUrl = ''<script src="'' @ alpineUrl @ ''" defer></script>''\<close>

definition chartTag :: string where
  "chartTag =
     ''<script>\<newline>window.Chart = parent.Chart; // Chart previously assigned on parent\<newline></script>''"

text \<open>The Alpine block: the tags it pushes and what it does besides.\<close>

definition alpine_block :: "deps_env \<Rightarrow> string \<Rightarrow> string list \<times> deps_effect list" where
  "alpine_block env html =
     (if hasAlpineDirectives html then
        (case alpine_import env of
           Some alpineUrl \<Rightarrow> ([alpineTag alpineUrl], [])
         | None \<Rightarrow> ([], [ConsoleError ''Error processing Alpine for iframe:'']))
      else ([], []))"

definition chart_block :: "deps_env \<Rightarrow> string \<Rightarrow> string list \<times> deps_effect list" where
  "chart_block env html =
     (if hasChartJsDirectives html then
        (if chart_import env then ([chartTag], [SetWindowChart])
         else ([], [ConsoleError ''Error processing Chart.js for iframe:'']))
      else ([], []))"

text \<open>The array \<open>scriptTags\<close> when both blocks have run.\<close>

definition scriptTags :: "deps_env \<Rightarrow> string \<Rightarrow> string list" where
  "scriptTags env html = fst (alpine_block env html) @ fst (chart_block env html)"

definition processHtmlForDeps ::
    "props \<Rightarrow> deps_env \<Rightarrow> string \<Rightarrow> string \<times> deps_effect list" where
  "processHtmlForDeps p env html =
     (if \<not> allowSameOrigin p then (html, [])
      else
        let effects = snd (alpine_block env html) @ snd (chart_block env html);
            tags = join ''\<newline>'' (scriptTags env html)
        in if length (scriptTags env html) = 0 then (html, effects)
           else if includes_str html ''</head>''
             then (replace html ''</head>'' (tags @ ''\<newline></head>''), effects)
           else if includes_str html ''</body>''
             then (replace html ''</body>'' (tags @ ''\<newline></body>''), effects)
           else (tags @ ''\<newline>'' @ html, effects))"

section \<open>FullHeightIframe.svelte: the component's state\<close>

text \<open>
  The part of the DOM the script reads. Reading \<open>contentWindow.document\<close> of a
  cross-origin frame throws a \<open>SecurityError\<close>; \<open>contentDocument\<close> is \<open>null\<close> there.
  \<open>scrollHeight\<close> and \<open>offsetWidth\<close> are integers. A window is known by its identity.
\<close>

record element =
  scrollHeight :: int

record document =
  documentElement :: "element option"
  body :: "element option"

datatype dom_exception = SecurityError

record window =
  win_id :: nat
  win_document :: "dom_exception + document"

record iframe_el =
  contentDocument :: "document option"
  contentWindow :: "window option"

record html_div =
  offsetWidth :: int

record state =
  iframe :: "iframe_el option"
  container :: "html_div option"
  containerHeight :: jsnum
  containerWidth :: "jsnum option"
  isDragging :: bool
  dragStartX :: jsnum
  dragStartY :: jsnum
  dragStartHeight :: jsnum
  dragStartWidth :: jsnum

text \<open>The script's initial values; \<open>iframe\<close> and \<open>container\<close> are bound at mount.\<close>

definition init_state :: "props \<Rightarrow> state" where
  "init_state p =
     \<lparr> iframe = None, container = None,
       containerHeight = (case initialHeight p of Some h \<Rightarrow> h | None \<Rightarrow> Fin 650),
       containerWidth = None, isDragging = False,
       dragStartX = Fin 0, dragStartY = Fin 0, dragStartHeight = Fin 0, dragStartWidth = Fin 0 \<rparr>"

subsection \<open>resizeSameOrigin\<close>

text \<open>\<open>iframe.contentDocument || iframe.contentWindow?.document\<close>\<close>

definition iframe_doc :: "iframe_el \<Rightarrow> dom_exception + document option" where
  "iframe_doc f =
     (case contentDocument f of
        Some doc \<Rightarrow> Inr (Some doc)
      | None \<Rightarrow>
          (case contentWindow f of
             None \<Rightarrow> Inr None
           | Some w \<Rightarrow>
               (case win_document w of
                  Inl ex \<Rightarrow> Inl ex
                | Inr doc \<Rightarrow> Inr (Some doc))))"

text \<open>\<open>el?.scrollHeight ?? 0\<close>\<close>

definition scrollHeight_or_0 :: "element option \<Rightarrow> int" where
  "scrollHeight_or_0 el = (case el of Some x \<Rightarrow> scrollHeight x | None \<Rightarrow> 0)"

text \<open>The body of the \<open>try\<close> block: a thrown exception is \<open>Inl\<close>.\<close>

definition resizeSameOrigin_try :: "iframe_el \<Rightarrow> state \<Rightarrow> dom_exception + state" where
  "resizeSameOrigin_try f s =
     (case iframe_doc f of
        Inl ex \<Rightarrow> Inl ex
      | Inr None \<Rightarrow> Inr s
      | Inr (Some doc) \<Rightarrow>
          (let h = max (scrollHeight_or_0 (documentElement doc)) (scrollHeight_or_0 (body doc))
           in if h > 0 then Inr (s\<lparr>containerHeight := Fin (real_of_int (h + 20))\<rparr>)
              else Inr s))"

text \<open>The function: the empty \<open>catch\<close> swallows the exception and leaves the state.\<close>

definition resizeSameOrigin :: "state \<Rightarrow> dom_exception + state" where
  "resizeSameOrigin s =
     (case iframe s of
        None \<Rightarrow> Inr s
      | Some f \<Rightarrow>
          (case resizeSameOrigin_try f s of
             Inl ex \<Rightarrow> Inr s
           | Inr s' \<Rightarrow> Inr s'))"

subsection \<open>The corner drag\<close>

text \<open>
  \<open>clientX\<close> and \<open>clientY\<close> of a mouse event are finite. The handlers also set the
  cursor and selection styles of the page and add or remove the document's listeners;
  the state below is what they read and write of the component.
\<close>

record mouse_event =
  clientX :: real
  clientY :: real

definition js_sub :: "jsnum \<Rightarrow> jsnum \<Rightarrow> jsnum" where
  "js_sub x y =
     js_add x (case y of NaN \<Rightarrow> NaN | NegInf \<Rightarrow> PosInf | PosInf \<Rightarrow> NegInf | Fin b \<Rightarrow> Fin (- b))"

text \<open>\<open>!containerWidth\<close>: true on \<open>null\<close>, \<open>0\<close> and \<open>NaN\<close>.\<close>

definition width_falsy :: "jsnum option \<Rightarrow> bool" where
  "width_falsy w = (case w of None \<Rightarrow> True | Some n \<Rightarrow> \<not> num_truthy n)"

definition onDragStart :: "state \<Rightarrow> mouse_event \<Rightarrow> state" where
  "onDragStart s e =
     (let s1 = s\<lparr> isDragging := True,
                  dragStartX := Fin (clientX e),
                  dragStartY := Fin (clientY e),
                  dragStartHeight := containerHeight s,
                  dragStartWidth :=
                    (case containerWidth s of
                       Some w \<Rightarrow> w
                     | None \<Rightarrow>
                         (case container s of
                            Some c \<Rightarrow> Fin (real_of_int (offsetWidth c))
                          | None \<Rightarrow> Fin 800)) \<rparr>
      in case container s1 of
           Some c \<Rightarrow>
             (if width_falsy (containerWidth s1)
              then s1\<lparr>containerWidth := Some (Fin (real_of_int (offsetWidth c)))\<rparr>
              else s1)
         | None \<Rightarrow> s1)"

definition onDragMove :: "state \<Rightarrow> mouse_event \<Rightarrow> state" where
  "onDragMove s e =
     (if \<not> isDragging s then s
      else s\<lparr> containerHeight :=
                 Math_max (Fin 200)
                   (js_add (dragStartHeight s) (js_sub (Fin (clientY e)) (dragStartY s))),
               containerWidth :=
                 Some (Math_max (Fin 300)
                   (js_add (dragStartWidth s) (js_sub (Fin (clientX e)) (dragStartX s)))) \<rparr>)"

definition onDragEnd :: "state \<Rightarrow> state" where
  "onDragEnd s = s\<lparr>isDragging := False\<rparr>"

text \<open>
  The mouse events of a drag, as the listeners receive them: \<open>mousedown\<close> on the grip,
  \<open>mousemove\<close> and \<open>mouseup\<close> on the document.
\<close>

datatype drag_event = MouseDown mouse_event | MouseMove mouse_event | MouseUp

fun drag_step :: "state \<Rightarrow> drag_event \<Rightarrow> state" where
  "drag_step s (MouseDown e) = onDragStart s e"
| "drag_step s (MouseMove e) = onDragMove s e"
| "drag_step s MouseUp = onDragEnd s"

subsection \<open>onMessage\<close>

text \<open>
  A message event: the identity of its source (\<open>None\<close> is a \<open>null\<close> source) and its
  data. What the handler does besides updating the state is a list of effects.
\<close>

record message_event =
  source :: "nat option"
  data :: jsval

datatype host_effect =
    PostMessage nat jsval string
  | ConsoleLog string jsval

text \<open>\<open>iframe.contentWindow?.postMessage(msg, '*')\<close>\<close>

definition post_to_iframe :: "iframe_el \<Rightarrow> jsval \<Rightarrow> host_effect list" where
  "post_to_iframe f msg =
     (case contentWindow f of
        None \<Rightarrow> []
      | Some w \<Rightarrow> [PostMessage (win_id w) msg ''*''])"

text \<open>\<open>const data = e.data || {}\<close>\<close>

definition msg_data :: "message_event \<Rightarrow> jsval" where
  "msg_data e = (if truthy (data e) then data e else JObject [])"

definition onMessage :: "props \<Rightarrow> state \<Rightarrow> message_event \<Rightarrow> state \<times> host_effect list" where
  "onMessage p s e =
     (case iframe s of
        None \<Rightarrow> (s, [])
      | Some f \<Rightarrow>
          if source e \<noteq> map_option win_id (contentWindow f) then (s, [])
          else
            let d = msg_data e;
                s1 = (if get_prop d ''type'' = JString ''iframe:height''
                      then (case get_prop d ''height'' of
                              JNumber h \<Rightarrow> s\<lparr>containerHeight := Math_max (Fin 200) h\<rparr>
                            | _ \<Rightarrow> s)
                      else s);
                fx2 = (if get_prop d ''type'' = JString ''pong''
                       then ConsoleLog ''Received pong from iframe:'' d
                              # post_to_iframe f (JObject [(''type'', JString ''pong:ack'')])
                       else []);
                fx3 = (if get_prop d ''type'' = JString ''payload''
                       then post_to_iframe f
                              (JObject [(''type'', JString ''payload''),
                                        (''requestId'', nullish_or (get_prop d ''requestId'') JNull),
                                        (''payload'', payload p)])
                       else [])
            in (s1, fx2 @ fx3))"

text \<open>The host over a sequence of message events: the final state and all effects.\<close>

fun onMessages :: "props \<Rightarrow> state \<Rightarrow> message_event list \<Rightarrow> state \<times> host_effect list" where
  "onMessages p s [] = (s, [])"
| "onMessages p s (e # es) =
     (let (s1, fx1) = onMessage p s e;
          (s2, fx2) = onMessages p s1 es
      in (s2, fx1 @ fx2))"

text \<open>Whether the handler's guard lets an event through.\<close>

definition from_iframe :: "state \<Rightarrow> message_event \<Rightarrow> bool" where
  "from_iframe s e =
     (case iframe s of
        None \<Rightarrow> False
      | Some f \<Rightarrow> source e = map_option win_id (contentWindow f))"

section \<open>i18n/index.ts: the isLoading store\<close>

text \<open>
  The argument of a \<open>loaded\<close> event is the object of the loaded resources. A listener
  is registered under an event name; \<open>emit\<close> runs the listeners of that name in order.
\<close>

type_synonym js_object = "(string \<times> jsval) list"

definition Object_keys :: "js_object \<Rightarrow> string list" where
  "Object_keys obj = remdups (map fst obj)"

type_synonym listener = "js_object \<Rightarrow> bool \<Rightarrow> bool"

text \<open>\<open>createIsLoadingStore\<close>: the store's first value and the listeners it registers.\<close>

definition createIsLoadingStore :: "bool \<times> (string \<times> listener) list" where
  "createIsLoadingStore =
     (False,
      [ (''loaded'', \<lambda>resources v. length (Object_keys resources) = 0),
        (''failedLoading'', \<lambda>args v. True) ])"

definition emit :: "(string \<times> listener) list \<Rightarrow> string \<Rightarrow> js_object \<Rightarrow> bool \<Rightarrow> bool" where
  "emit ls ev arg v = fold (\<lambda>(n, h) v'. if n = ev then h arg v' else v') ls v"

text \<open>The store's value after a sequence of events of the library.\<close>

definition isLoading_after :: "(string \<times> js_object) list \<Rightarrow> bool" where
  "isLoading_after evs =
     fold (\<lambda>(ev, arg) v. emit (snd createIsLoadingStore) ev arg v) evs (fst createIsLoadingStore)"

text \<open>
  The last event of a sequence that is \<open>loaded\<close> or \<open>failedLoading\<close>, if there is one.
\<close>

definition last_loading_event :: "(string \<times> js_object) list \<Rightarrow> (string \<times> js_object) option" where
  "last_loading_event evs =
     (let xs = filter (\<lambda>(ev, arg). ev = ''loaded'' \<or> ev = ''failedLoading'') evs
      in if xs = [] then None else Some (last xs))"

section \<open>The sign-in page\<close>

text \<open>
  The page calls the auth API, the stores, the router and the toasts. An awaited call
  resolves with a value or rejects with an error, here the text \<open>`${error}`\<close> makes of it.
  The session user is the object the API returns, \<open>None\<close> being \<open>null\<close>; of its fields
  the page reads \<open>token\<close>.
\<close>

datatype 'a promise = Resolved 'a | Rejected string

record session_user =
  token :: "string option"

record auth_form =
  name :: string
  email :: string
  password :: string
  confirmPassword :: string

text \<open>
  What the page is given: the API functions, \<open>$i18n.t\<close>, the value of
  \<open>$page.url.searchParams.get('redirect')\<close> (\<open>None\<close> when the URL has no such
  parameter) and the flag \<open>$config?.features?.enable_signup_password_confirmation\<close>.
\<close>

record auth_env =
  userSignIn :: "string \<Rightarrow> string \<Rightarrow> session_user option promise"
  userSignUp :: "string \<Rightarrow> string \<Rightarrow> string \<Rightarrow> string \<Rightarrow> session_user option promise"
  getBackendConfig :: "jsval promise"
  generateInitialsImage :: "string \<Rightarrow> string"
  getUserTimezone :: string
  i18n_t :: "string \<Rightarrow> string"
  redirect_param :: "string option"
  enable_signup_password_confirmation :: bool

datatype page_effect =
    ConsoleLogUser session_user
  | ToastSuccess string
  | ToastError string
  | LocalStorageSetToken string
  | SocketEmitUserJoin "string option"
  | UserSet session_user
  | ConfigSet jsval
  | UpdateUserTimezone string string
  | Goto string
  | LocalStorageRemoveItem string

text \<open>A string that may be \<open>null\<close> is truthy when it is there and not empty.\<close>

fun str_truthy :: "string option \<Rightarrow> bool" where
  "str_truthy None = False"
| "str_truthy (Some s) = (s \<noteq> [])"

text \<open>\<open>a || b\<close> on such strings, \<open>b\<close> being a string.\<close>

definition str_or :: "string option \<Rightarrow> string \<Rightarrow> string" where
  "str_or a b = (if str_truthy a then the a else b)"

text \<open>
  \<open>setSessionUser\<close>: the effects in the order they happen, and how the async function
  ends. A rejection of \<open>getBackendConfig\<close> is not caught and ends it there.
\<close>

definition setSessionUser ::
    "auth_env \<Rightarrow> session_user option \<Rightarrow> string option \<Rightarrow> page_effect list \<times> unit promise" where
  "setSessionUser env sessionUser redirectPath =
     (case sessionUser of
        None \<Rightarrow> ([], Resolved ())
      | Some u \<Rightarrow>
          let fx1 = [ConsoleLogUser u, ToastSuccess (i18n_t env ''You're now logged in.'')]
                    @ (if str_truthy (token u) then [LocalStorageSetToken (the (token u))] else [])
                    @ [SocketEmitUserJoin (token u), UserSet u]
          in case getBackendConfig env of
               Rejected err \<Rightarrow> (fx1, Rejected err)
             | Resolved cfg \<Rightarrow>
                 let fx2 = [ConfigSet cfg]
                           @ (if str_truthy (token u) \<and> getUserTimezone env \<noteq> []
                              then [UpdateUserTimezone (the (token u)) (getUserTimezone env)]
                              else []);
                     redirectPath' =
                       (if \<not> str_truthy redirectPath then str_or (redirect_param env) ''/''
                        else the redirectPath)
                 in (fx1 @ fx2 @ [Goto redirectPath', LocalStorageRemoveItem ''redirectPath''],
                     Resolved ()))"

text \<open>
  \<open>signInHandler\<close>: the \<open>catch\<close> on the API call shows the error and yields \<open>null\<close>.
\<close>

definition signInHandler :: "auth_env \<Rightarrow> auth_form \<Rightarrow> page_effect list \<times> unit promise" where
  "signInHandler env form =
     (case userSignIn env (email form) (password form) of
        Rejected err \<Rightarrow>
          (let (fx, r) = setSessionUser env None None in (ToastError err # fx, r))
      | Resolved sessionUser \<Rightarrow> setSessionUser env sessionUser None)"

definition signUpHandler :: "auth_env \<Rightarrow> auth_form \<Rightarrow> page_effect list \<times> unit promise" where
  "signUpHandler env form =
     (if enable_signup_password_confirmation env \<and> password form \<noteq> confirmPassword form
      then ([ToastError (i18n_t env ''Passwords do not match.'')], Resolved ())
      else
        (case userSignUp env (name form) (email form) (password form)
                (generateInitialsImage env (name form)) of
           Rejected err \<Rightarrow>
             (let (fx, r) = setSessionUser env None None in (ToastError err # fx, r))
         | Resolved sessionUser \<Rightarrow> setSessionUser env sessionUser None))"

datatype auth_mode = signin | signup

definition submitHandler ::
    "auth_mode \<Rightarrow> auth_env \<Rightarrow> auth_form \<Rightarrow> page_effect list \<times> unit promise" where
  "submitHandler mode env form =
     (if mode = signin then signInHandler env form else signUpHandler env form)"

section \<open>Specification-side notions and sample inputs\<close>

text \<open>
  The sandbox tokens as the specification words them: one token for each prop that is
  true, in the fixed order.
\<close>

definition spec_sandbox_tokens :: "props \<Rightarrow> string list" where
  "spec_sandbox_tokens p =
     (if allowScripts p then [''allow-scripts''] else []) @
     (if allowForms p then [''allow-forms''] else []) @
     (if allowSameOrigin p then [''allow-same-origin''] else []) @
     (if allowPopups p then [''allow-popups''] else []) @
     (if allowDownloads p then [''allow-downloads''] else [])"

text \<open>Props of a trusted embed, and environments in which the imports succeed or fail.\<close>

definition trusted_props :: props where
  "trusted_props = default_props\<lparr>allowSameOrigin := True\<rparr>"

definition imports_ok :: deps_env where
  "imports_ok = \<lparr> alpine_import = Some ''blob:https://host/1f0e'', chart_import = True \<rparr>"

definition imports_fail :: deps_env where
  "imports_fail = \<lparr> alpine_import = None, chart_import = False \<rparr>"

text \<open>
  A cross-origin frame and a same-origin frame whose document measures 480 and 500
  pixels, each in a mounted component with the default props.
\<close>

definition cross_origin_iframe :: iframe_el where
  "cross_origin_iframe =
     \<lparr> contentDocument = None,
       contentWindow = Some \<lparr> win_id = 7, win_document = Inl SecurityError \<rparr> \<rparr>"

definition sample_document :: document where
  "sample_document =
     \<lparr> documentElement = Some \<lparr> scrollHeight = 480 \<rparr>,
       body = Some \<lparr> scrollHeight = 500 \<rparr> \<rparr>"

definition same_origin_iframe :: iframe_el where
  "same_origin_iframe =
     \<lparr> contentDocument = Some sample_document,
       contentWindow = Some \<lparr> win_id = 7, win_document = Inr sample_document \<rparr> \<rparr>"

definition mounted :: "iframe_el \<Rightarrow> state" where
  "mounted f =
     (init_state default_props)\<lparr> iframe := Some f, container := Some \<lparr> offsetWidth = 640 \<rparr> \<rparr>"

text \<open>
  The width is \<open>null\<close> (the container is then as wide as its parent lets it be) or a
  number; "not below 300" is said of the number.
\<close>

fun width_not_below :: "real \<Rightarrow> jsnum option \<Rightarrow> bool" where
  "width_not_below b None = True"
| "width_not_below b (Some w) = (\<not> js_lt w (Fin b))"

text \<open>A drag in progress, started at (100, 100) on a frame 650 high and 640 wide.\<close>

definition dragging :: state where
  "dragging = onDragStart (mounted same_origin_iframe) \<lparr> clientX = 100, clientY = 100 \<rparr>"

text \<open>
  A session user with a token, a filled form, an environment in which every call
  succeeds (given the URL's \<open>redirect\<close> parameter) and one in which the auth API rejects.
\<close>

definition sample_user :: session_user where
  "sample_user = \<lparr> token = Some ''tok'' \<rparr>"

definition sample_form :: auth_form where
  "sample_form =
     \<lparr> name = ''Ann'', email = ''ann@example.org'', password = ''pw'', confirmPassword = ''pw'' \<rparr>"

definition auth_env_ok :: "string option \<Rightarrow> auth_env" where
  "auth_env_ok redirect =
     \<lparr> userSignIn = (\<lambda>e pw. Resolved (Some sample_user)),
       userSignUp = (\<lambda>n e pw img. Resolved (Some sample_user)),
       getBackendConfig = Resolved (JObject []),
       generateInitialsImage = (\<lambda>n. ''data:image/png''),
       getUserTimezone = ''Europe/Paris'',
       i18n_t = (\<lambda>s. s),
       redirect_param = redirect,
       enable_signup_password_confirmation = True \<rparr>"

definition auth_env_rejecting :: auth_env where
  "auth_env_rejecting =
     (auth_env_ok None)
       \<lparr> userSignIn := (\<lambda>e pw. Rejected ''Error: wrong password''),
         userSignUp := (\<lambda>n e pw img. Rejected ''Error: email taken'') \<rparr>"

text \<open>
  Messages: two height reports (900 and 10 pixels), a pong, a payload request and one of
  another type.
\<close>

definition height_message :: jsval where
  "height_message =
     JObject [(''type'', JString ''iframe:height''), (''height'', JNumber (Fin 900))]"

definition low_height_message :: jsval where
  "low_height_message =
     JObject [(''type'', JString ''iframe:height''), (''height'', JNumber (Fin 10))]"

definition pong_message :: jsval where
  "pong_message = JObject [(''type'', JString ''pong'')]"

definition payload_request :: jsval where
  "payload_request = JObject [(''type'', JString ''payload''), (''requestId'', JNumber (Fin 3))]"

definition other_message :: jsval where
  "other_message = JObject [(''type'', JString ''ping'')]"

section \<open>Substrings and replacement\<close>

lemma includes_str_sublist: "includes_str h n = sublist n h"
  by (induction h) (auto simp: sublist_Cons_right)

lemma GetSubstitution_plain:
  "CHR ''$'' \<notin> set r \<Longrightarrow> GetSubstitution m pre post r = r"
  by (induction m pre post r rule: GetSubstitution.induct) auto

lemma split_first_Some:
  "split_first n h = Some (pre, post) \<Longrightarrow>
     h = pre @ n @ post \<and> (\<forall>pre' post'. h = pre' @ n @ post' \<longrightarrow> length pre \<le> length pre')"
proof (induction h arbitrary: pre)
  case Nil
  then show ?case by (simp split: if_splits)
next
  case (Cons c cs)
  show ?case
  proof (cases "prefix n (c # cs)")
    case True
    with Cons.prems have "pre = []" "post = drop (length n) (c # cs)" by simp_all
    moreover from True have "c # cs = n @ drop (length n) (c # cs)"
      by (metis append_eq_conv_conj prefix_def)
    ultimately show ?thesis by simp
  next
    case False
    with Cons.prems obtain pre1
      where s: "split_first n cs = Some (pre1, post)" and p: "pre = c # pre1"
      by auto
    from Cons.IH[OF s] have eq: "cs = pre1 @ n @ post"
      and mn: "\<And>pre' post'. cs = pre' @ n @ post' \<Longrightarrow> length pre1 \<le> length pre'"
      by auto
    have "length pre \<le> length pre'" if h: "c # cs = pre' @ n @ post'" for pre' post'
    proof (cases pre')
      case Nil
      with h have "prefix n (c # cs)" by (simp add: prefix_def)
      with False show ?thesis by simp
    next
      case (Cons a pre'')
      with h have "cs = pre'' @ n @ post'" by simp
      from mn[OF this] show ?thesis using p Cons by simp
    qed
    with eq p show ?thesis by simp
  qed
qed

lemma split_first_includes:
  "includes_str h n \<Longrightarrow> \<exists>pre post. split_first n h = Some (pre, post)"
  by (induction h) (auto split: if_splits)

lemma replace_leftmost:
  assumes "includes_str h n" and "CHR ''$'' \<notin> set r"
  shows "\<exists>pre post. h = pre @ n @ post
           \<and> (\<forall>pre' post'. h = pre' @ n @ post' \<longrightarrow> length pre \<le> length pre')
           \<and> replace h n r = pre @ r @ post"
proof -
  from split_first_includes[OF assms(1)] obtain pre post
    where s: "split_first n h = Some (pre, post)" by blast
  from split_first_Some[OF s] s assms(2) show ?thesis
    by (auto simp: replace_def GetSubstitution_plain)
qed

lemma set_join: "set (join sep xs) \<subseteq> set sep \<union> \<Union> (set ` set xs)"
  by (induction sep xs rule: join.induct) auto

lemma scriptTags_eq:
  "scriptTags env html =
     (if hasAlpineDirectives html
      then (case alpine_import env of Some url \<Rightarrow> [alpineTag url] | None \<Rightarrow> [])
      else [])
     @ (if hasChartJsDirectives html \<and> chart_import env then [chartTag] else [])"
  by (simp add: scriptTags_def alpine_block_def chart_block_def split: option.splits)

lemma scriptTags_cases:
  "t \<in> set (scriptTags env html) \<Longrightarrow>
     (\<exists>url. alpine_import env = Some url \<and> t = alpineTag url) \<or> t = chartTag"
  by (auto simp: scriptTags_def alpine_block_def chart_block_def split: if_splits option.splits)

lemma chartTag_no_dollar: "CHR ''$'' \<notin> set chartTag"
  by (simp add: chartTag_def)

lemma alpineTag_no_dollar: "CHR ''$'' \<notin> set url \<Longrightarrow> CHR ''$'' \<notin> set (alpineTag url)"
  by (simp add: alpineTag_def)

lemma tags_no_dollar:
  assumes "\<forall>url. alpine_import env = Some url \<longrightarrow> CHR ''$'' \<notin> set url"
  shows "CHR ''$'' \<notin> set (join ''\<newline>'' (scriptTags env html))"
proof -
  have "CHR ''$'' \<notin> set t" if "t \<in> set (scriptTags env html)" for t
    using scriptTags_cases[OF that] assms chartTag_no_dollar alpineTag_no_dollar by blast
  then show ?thesis using set_join[of "''\<newline>''" "scriptTags env html"] by auto
qed

lemma hasAlpineDirectives_iff:
  "hasAlpineDirectives html = (\<exists>dir \<in> set alpineDirectives. sublist dir html)"
  by (simp add: hasAlpineDirectives_def list_ex_iff includes_str_sublist)

lemma hasChartJsDirectives_iff:
  "hasChartJsDirectives html = (sublist ''new Chart('' html \<or> sublist ''Chart.'' html)"
  by (simp add: hasChartJsDirectives_def chartJsDirectives_def includes_str_sublist)

lemma injected_shape:
  assumes "allowSameOrigin p" and "scriptTags env html \<noteq> []"
    and "\<forall>url. alpine_import env = Some url \<longrightarrow> CHR ''$'' \<notin> set url"
  shows "\<exists>pre post. html = pre @ post
           \<and> fst (processHtmlForDeps p env html)
               = pre @ join ''\<newline>'' (scriptTags env html) @ ''\<newline>'' @ post"
proof -
  let ?tags = "join ''\<newline>'' (scriptTags env html)"
  have nd: "CHR ''$'' \<notin> set (?tags @ ''\<newline>'' @ n)" if "CHR ''$'' \<notin> set n" for n
    using tags_no_dollar[OF assms(3), of html] that by simp
  show ?thesis
  proof (cases "includes_str html ''</head>''")
    case True
    from replace_leftmost[OF True nd[of "''</head>''"]] obtain pre post
      where "html = pre @ ''</head>'' @ post"
        and "replace html ''</head>'' (?tags @ ''\<newline>'' @ ''</head>'')
               = pre @ (?tags @ ''\<newline>'' @ ''</head>'') @ post"
      by auto
    with True assms(1,2) show ?thesis
      by (intro exI[of _ pre] exI[of _ "''</head>'' @ post"])
         (simp add: processHtmlForDeps_def Let_def)
  next
    case nohead: False
    show ?thesis
    proof (cases "includes_str html ''</body>''")
      case True
      from replace_leftmost[OF True nd[of "''</body>''"]] obtain pre post
        where "html = pre @ ''</body>'' @ post"
          and "replace html ''</body>'' (?tags @ ''\<newline>'' @ ''</body>'')
                 = pre @ (?tags @ ''\<newline>'' @ ''</body>'') @ post"
        by auto
      with True nohead assms(1,2) show ?thesis
        by (intro exI[of _ pre] exI[of _ "''</body>'' @ post"])
           (simp add: processHtmlForDeps_def Let_def)
    next
      case False
      with nohead assms(1,2) show ?thesis
        by (intro exI[of _ "[]"] exI[of _ html]) (simp add: processHtmlForDeps_def Let_def)
    qed
  qed
qed

section \<open>The sandbox attribute\<close>

text \<open>
  C1. For every combination of the five boolean props, the sandbox attribute is the
  tokens of the props that are true, in the fixed order, joined by single spaces, so
  that splitting it at the spaces gives these tokens back; it is absent exactly when
  all five props are false. Under the defaults it is \<open>allow-scripts allow-downloads\<close>,
  and \<open>allow-same-origin\<close> is one of its tokens exactly when that prop is set.
\<close>

theorem sandbox_tokens_of_props:
  "sandbox p =
     (if spec_sandbox_tokens p = [] then None
      else Some (join '' '' (spec_sandbox_tokens p)))
   \<and> map_option (split_on CHR '' '') (sandbox p) =
     (if spec_sandbox_tokens p = [] then None else Some (spec_sandbox_tokens p))
   \<and> (sandbox p = None) =
     (\<not> allowScripts p \<and> \<not> allowForms p \<and> \<not> allowSameOrigin p
      \<and> \<not> allowPopups p \<and> \<not> allowDownloads p)
   \<and> sandbox default_props = Some ''allow-scripts allow-downloads''
   \<and> (\<exists>s. sandbox p = Some s \<and> ''allow-same-origin'' \<in> set (split_on CHR '' '' s))
       = allowSameOrigin p"
  by (cases "allowScripts p"; cases "allowForms p"; cases "allowSameOrigin p";
      cases "allowPopups p"; cases "allowDownloads p")
     (simp_all add: sandbox_def spec_sandbox_tokens_def js_and_def default_props_def)

section \<open>Dependency injection\<close>

text \<open>
  C10. When \<open>allowSameOrigin\<close> is false, \<open>processHtmlForDeps\<close> returns every HTML
  string unchanged and does nothing else; so it does under the default props.
\<close>

theorem processHtmlForDeps_untrusted_identity:
  "(\<not> allowSameOrigin p \<longrightarrow> processHtmlForDeps p env html = (html, []))
   \<and> processHtmlForDeps default_props env html = (html, [])"
  by (simp add: processHtmlForDeps_def default_props_def)

theorem processHtmlForDeps_untrusted_identity_witness:
  "processHtmlForDeps (default_props\<lparr>allowForms := True\<rparr>) imports_ok
       ''<div x-data>new Chart(c)</div>''
     = (''<div x-data>new Chart(c)</div>'', [])
   \<and> processHtmlForDeps default_props imports_fail ''<head></head><p x-show=a></p>''
     = (''<head></head><p x-show=a></p>'', [])"
proof -
  have h: "\<not> allowSameOrigin (default_props\<lparr>allowForms := True\<rparr>)"
    by (simp add: default_props_def)
  from processHtmlForDeps_untrusted_identity[THEN conjunct1, rule_format, OF h]
       processHtmlForDeps_untrusted_identity[THEN conjunct2]
  show ?thesis by blast
qed

text \<open>
  C5, as the specification states it: with \<open>allowSameOrigin\<close>, the Alpine script is
  injected if and only if the HTML contains an Alpine directive. It fails when the
  import of Alpine throws: the HTML contains \<open>x-data\<close>, the \<open>catch\<close> logs the error,
  no tag is pushed and the HTML comes back unchanged.
\<close>

theorem alpine_import_failure_counterexample:
  "allowSameOrigin trusted_props
   \<and> sublist ''x-data'' ''<div x-data>new Chart(c)</div>''
   \<and> sublist ''new Chart('' ''<div x-data>new Chart(c)</div>''
   \<and> scriptTags imports_fail ''<div x-data>new Chart(c)</div>'' = []
   \<and> processHtmlForDeps trusted_props imports_fail ''<div x-data>new Chart(c)</div>''
       = (''<div x-data>new Chart(c)</div>'',
          [ConsoleError ''Error processing Alpine for iframe:'',
           ConsoleError ''Error processing Chart.js for iframe:''])"
  by (simp add: trusted_props_def default_props_def imports_fail_def processHtmlForDeps_def
        scriptTags_def alpine_block_def chart_block_def hasAlpineDirectives_def
        hasChartJsDirectives_def alpineDirectives_def chartJsDirectives_def
        flip: includes_str_sublist)

lemma join_then_sep: "xs \<noteq> [] \<Longrightarrow> join sep xs @ sep = concat (map (\<lambda>t. t @ sep) xs)"
  by (induction sep xs rule: join.induct) simp_all

text \<open>
  C5, amended. With \<open>allowSameOrigin\<close>, the tags to inject are the Alpine tag
  \<open><script src="URL" defer></script>\<close>, if and only if the HTML contains one of the 18
  directives and the import of Alpine succeeds (with \<open>URL\<close> the object URL), followed by
  the Chart.js tag, if and only if the HTML contains \<open>new Chart(\<close> or \<open>Chart.\<close> and the
  import of Chart.js succeeds; there is no other tag. The returned HTML is the given
  HTML with exactly these tags, each followed by a newline, inserted at one place (no
  dollar sign in the object URL), at the very start when the HTML has neither
  \<open></head>\<close> nor \<open></body>\<close>; with no tag it is the given HTML.
\<close>

theorem scriptTags_detected_and_imported:
  assumes "allowSameOrigin p"
  shows \<open>alpineDirectives =
        [ ''x-data'', ''x-init'', ''x-show'', ''x-bind'', ''x-on'', ''x-text'', ''x-html'',
          ''x-model'', ''x-modelable'', ''x-ref'', ''x-for'', ''x-if'', ''x-effect'',
          ''x-transition'', ''x-cloak'', ''x-ignore'', ''x-teleport'', ''x-id'' ]
    \<and> length alpineDirectives = 18
    \<and> scriptTags env html =
        (case alpine_import env of
           Some url \<Rightarrow>
             if (\<exists>dir \<in> set alpineDirectives. sublist dir html)
             then [''<script src="'' @ url @ ''" defer></script>''] else []
         | None \<Rightarrow> [])
        @ (if chart_import env \<and> (sublist ''new Chart('' html \<or> sublist ''Chart.'' html)
           then [''<script>\<newline>window.Chart = parent.Chart; // Chart previously assigned on parent\<newline></script>'']
           else [])
    \<and> (scriptTags env html = [] \<longrightarrow> fst (processHtmlForDeps p env html) = html)
    \<and> ((\<forall>url. alpine_import env = Some url \<longrightarrow> CHR ''$'' \<notin> set url) \<longrightarrow>
         (\<exists>pre post. html = pre @ post
            \<and> fst (processHtmlForDeps p env html) =
                pre
                @ (case alpine_import env of
                     Some url \<Rightarrow>
                       if (\<exists>dir \<in> set alpineDirectives. sublist dir html)
                       then ''<script src="'' @ url @ ''" defer></script>\<newline>'' else []
                   | None \<Rightarrow> [])
                @ (if chart_import env \<and> (sublist ''new Chart('' html \<or> sublist ''Chart.'' html)
                   then ''<script>\<newline>window.Chart = parent.Chart; // Chart previously assigned on parent\<newline></script>\<newline>''
                   else [])
                @ post))
    \<and> (\<not> sublist ''</head>'' html \<and> \<not> sublist ''</body>'' html \<longrightarrow>
         fst (processHtmlForDeps p env html) =
           (case alpine_import env of
              Some url \<Rightarrow>
                if (\<exists>dir \<in> set alpineDirectives. sublist dir html)
                then ''<script src="'' @ url @ ''" defer></script>\<newline>'' else []
            | None \<Rightarrow> [])
           @ (if chart_import env \<and> (sublist ''new Chart('' html \<or> sublist ''Chart.'' html)
              then ''<script>\<newline>window.Chart = parent.Chart; // Chart previously assigned on parent\<newline></script>\<newline>''
              else [])
           @ html)
    \<and> (scriptTags env html \<noteq> []
         \<and> (\<forall>url. alpine_import env = Some url \<longrightarrow> CHR ''$'' \<notin> set url)
        \<longrightarrow> sublist (join ''\<newline>'' (scriptTags env html)) (fst (processHtmlForDeps p env html)))\<close>
proof -
  let ?X = \<open>(case alpine_import env of
              Some url \<Rightarrow>
                if (\<exists>dir \<in> set alpineDirectives. sublist dir html)
                then ''<script src="'' @ url @ ''" defer></script>\<newline>'' else []
            | None \<Rightarrow> [])\<close>
  let ?Y = \<open>(if chart_import env \<and> (sublist ''new Chart('' html \<or> sublist ''Chart.'' html)
              then ''<script>\<newline>window.Chart = parent.Chart; // Chart previously assigned on parent\<newline></script>\<newline>''
              else [])\<close>
  have st: \<open>scriptTags env html =
        (case alpine_import env of
           Some url \<Rightarrow>
             if (\<exists>dir \<in> set alpineDirectives. sublist dir html)
             then [''<script src="'' @ url @ ''" defer></script>''] else []
         | None \<Rightarrow> [])
        @ (if chart_import env \<and> (sublist ''new Chart('' html \<or> sublist ''Chart.'' html)
           then [''<script>\<newline>window.Chart = parent.Chart; // Chart previously assigned on parent\<newline></script>'']
           else [])\<close>
    unfolding scriptTags_eq hasAlpineDirectives_iff hasChartJsDirectives_iff
      alpineTag_def chartTag_def
    by (simp split: option.splits)
  have cc: "concat (map (\<lambda>t. t @ ''\<newline>'') (scriptTags env html)) = ?X @ ?Y"
    unfolding st by (simp split: option.splits)
  have jn: "join ''\<newline>'' (scriptTags env html) @ ''\<newline>'' = ?X @ ?Y"
    if "scriptTags env html \<noteq> []"
    using join_then_sep[OF that, of "''\<newline>''"] cc by simp
  have em: "?X @ ?Y = []" if "scriptTags env html = []"
    using cc unfolding that by simp
  have plain: "fst (processHtmlForDeps p env html) = html" if "scriptTags env html = []"
    using that assms by (simp add: processHtmlForDeps_def)
  have shape: "\<exists>pre post. html = pre @ post
            \<and> fst (processHtmlForDeps p env html) = pre @ ?X @ ?Y @ post"
    if nd: "\<forall>url. alpine_import env = Some url \<longrightarrow> CHR ''$'' \<notin> set url"
  proof (cases "scriptTags env html = []")
    case True
    from plain[OF True] em[OF True] have "html = [] @ html
        \<and> fst (processHtmlForDeps p env html) = [] @ ?X @ ?Y @ html"
      by (simp only: append_Nil append_assoc[symmetric])
    then show ?thesis by blast
  next
    case False
    from injected_shape[OF assms False nd] obtain pre post
      where e: "html = pre @ post"
        and o: "fst (processHtmlForDeps p env html)
                  = pre @ join ''\<newline>'' (scriptTags env html) @ ''\<newline>'' @ post"
      by blast
    from o have "fst (processHtmlForDeps p env html)
                  = pre @ (join ''\<newline>'' (scriptTags env html) @ ''\<newline>'') @ post"
      by simp
    then have "fst (processHtmlForDeps p env html) = pre @ (?X @ ?Y) @ post"
      unfolding jn[OF False] .
    with e have "html = pre @ post
        \<and> fst (processHtmlForDeps p env html) = pre @ ?X @ ?Y @ post"
      by simp
    then show ?thesis by blast
  qed
  have front: "fst (processHtmlForDeps p env html) = ?X @ ?Y @ html"
    if nh: "\<not> sublist ''</head>'' html \<and> \<not> sublist ''</body>'' html"
  proof (cases "scriptTags env html = []")
    case True
    from plain[OF True] em[OF True] show ?thesis
      by (simp only: append_Nil append_assoc[symmetric])
  next
    case False
    with nh assms have "fst (processHtmlForDeps p env html)
        = (join ''\<newline>'' (scriptTags env html) @ ''\<newline>'') @ html"
      by (simp add: processHtmlForDeps_def Let_def includes_str_sublist)
    then show ?thesis unfolding jn[OF False] by simp
  qed
  have sub: "sublist (join ''\<newline>'' (scriptTags env html)) (fst (processHtmlForDeps p env html))"
    if h: "scriptTags env html \<noteq> []
           \<and> (\<forall>url. alpine_import env = Some url \<longrightarrow> CHR ''$'' \<notin> set url)"
  proof -
    from h injected_shape[OF assms, of env html] obtain pre post
      where "fst (processHtmlForDeps p env html)
               = pre @ join ''\<newline>'' (scriptTags env html) @ ''\<newline>'' @ post"
      by blast
    then show ?thesis unfolding sublist_def by blast
  qed
  have dirs: "alpineDirectives =
        [ ''x-data'', ''x-init'', ''x-show'', ''x-bind'', ''x-on'', ''x-text'', ''x-html'',
          ''x-model'', ''x-modelable'', ''x-ref'', ''x-for'', ''x-if'', ''x-effect'',
          ''x-transition'', ''x-cloak'', ''x-ignore'', ''x-teleport'', ''x-id'' ]"
    by (rule alpineDirectives_def)
  have len: "length alpineDirectives = 18" by (simp add: alpineDirectives_def)
  show ?thesis
    by (intro conjI impI) (rule dirs len st plain shape front sub | assumption)+
qed

theorem scriptTags_detected_and_imported_witness:
  \<open>fst (processHtmlForDeps trusted_props imports_ok ''<p x-show=a>Chart.x</p>'')
     = ''<script src="blob:https://host/1f0e" defer></script>\<newline><script>\<newline>window.Chart = parent.Chart; // Chart previously assigned on parent\<newline></script>\<newline><p x-show=a>Chart.x</p>''
   \<and> fst (processHtmlForDeps trusted_props imports_ok ''<p x-data></p>'')
     = ''<script src="blob:https://host/1f0e" defer></script>\<newline><p x-data></p>''
   \<and> fst (processHtmlForDeps trusted_props imports_ok ''<p>new Chart(c)</p>'')
     = ''<script>\<newline>window.Chart = parent.Chart; // Chart previously assigned on parent\<newline></script>\<newline><p>new Chart(c)</p>''
   \<and> fst (processHtmlForDeps trusted_props imports_ok ''<p>plain</p>'') = ''<p>plain</p>''
   \<and> fst (processHtmlForDeps trusted_props imports_fail ''<p x-show=a>Chart.x</p>'')
     = ''<p x-show=a>Chart.x</p>''
   \<and> scriptTags imports_ok ''<p x-show=a>Chart.x</p>''
     = [''<script src="blob:https://host/1f0e" defer></script>'',
        ''<script>\<newline>window.Chart = parent.Chart; // Chart previously assigned on parent\<newline></script>'']\<close>
proof -
  have h: "allowSameOrigin trusted_props"
    by (simp add: trusted_props_def)
  note t = scriptTags_detected_and_imported[OF h]
  note front = t[THEN conjunct2, THEN conjunct2, THEN conjunct2, THEN conjunct2,
                 THEN conjunct2, THEN conjunct1, rule_format]
  note tags = t[THEN conjunct2, THEN conjunct2, THEN conjunct1]
  have n1: "\<not> sublist ''</head>'' ''<p x-show=a>Chart.x</p>''
            \<and> \<not> sublist ''</body>'' ''<p x-show=a>Chart.x</p>''"
    and n2: "\<not> sublist ''</head>'' ''<p x-data></p>'' \<and> \<not> sublist ''</body>'' ''<p x-data></p>''"
    and n3: "\<not> sublist ''</head>'' ''<p>new Chart(c)</p>''
            \<and> \<not> sublist ''</body>'' ''<p>new Chart(c)</p>''"
    and n4: "\<not> sublist ''</head>'' ''<p>plain</p>'' \<and> \<not> sublist ''</body>'' ''<p>plain</p>''"
    by (simp_all flip: includes_str_sublist)
  have c1: \<open>fst (processHtmlForDeps trusted_props imports_ok ''<p x-show=a>Chart.x</p>'')
     = ''<script src="blob:https://host/1f0e" defer></script>\<newline><script>\<newline>window.Chart = parent.Chart; // Chart previously assigned on parent\<newline></script>\<newline><p x-show=a>Chart.x</p>''\<close>
    using front[OF n1, of imports_ok]
    by (simp add: imports_ok_def alpineDirectives_def flip: includes_str_sublist)
  have c2: \<open>fst (processHtmlForDeps trusted_props imports_ok ''<p x-data></p>'')
     = ''<script src="blob:https://host/1f0e" defer></script>\<newline><p x-data></p>''\<close>
    using front[OF n2, of imports_ok]
    by (simp add: imports_ok_def alpineDirectives_def flip: includes_str_sublist)
  have c3: \<open>fst (processHtmlForDeps trusted_props imports_ok ''<p>new Chart(c)</p>'')
     = ''<script>\<newline>window.Chart = parent.Chart; // Chart previously assigned on parent\<newline></script>\<newline><p>new Chart(c)</p>''\<close>
    using front[OF n3, of imports_ok]
    by (simp add: imports_ok_def alpineDirectives_def flip: includes_str_sublist)
  have c4: "fst (processHtmlForDeps trusted_props imports_ok ''<p>plain</p>'') = ''<p>plain</p>''"
    using front[OF n4, of imports_ok]
    by (simp add: imports_ok_def alpineDirectives_def flip: includes_str_sublist)
  have c5: "fst (processHtmlForDeps trusted_props imports_fail ''<p x-show=a>Chart.x</p>'')
     = ''<p x-show=a>Chart.x</p>''"
    using front[OF n1, of imports_fail]
    by (simp add: imports_fail_def)
  have c6: \<open>scriptTags imports_ok ''<p x-show=a>Chart.x</p>''
     = [''<script src="blob:https://host/1f0e" defer></script>'',
        ''<script>\<newline>window.Chart = parent.Chart; // Chart previously assigned on parent\<newline></script>'']\<close>
    using tags[of imports_ok "''<p x-show=a>Chart.x</p>''"]
    by (simp add: imports_ok_def alpineDirectives_def flip: includes_str_sublist)
  from c1 c2 c3 c4 c5 c6 show ?thesis by blast
qed

text \<open>
  C4. Whenever \<open>processHtmlForDeps\<close> has tags to inject (and the object URL has no
  dollar sign, which \<open>replace\<close> would read as a pattern), the result is the HTML with
  the tags and a newline inserted immediately before the first \<open></head>\<close> if the HTML
  contains one, otherwise immediately before the first \<open></body>\<close> if it contains one,
  otherwise at the very start; the text before and after is unchanged.
\<close>

theorem injection_position:
  assumes "allowSameOrigin p"
    and "scriptTags env html \<noteq> []"
    and "\<forall>url. alpine_import env = Some url \<longrightarrow> CHR ''$'' \<notin> set url"
  shows "(sublist ''</head>'' html \<longrightarrow>
           (\<exists>pre post. html = pre @ ''</head>'' @ post
              \<and> (\<forall>pre' post'. html = pre' @ ''</head>'' @ post' \<longrightarrow> length pre \<le> length pre')
              \<and> fst (processHtmlForDeps p env html)
                  = pre @ join ''\<newline>'' (scriptTags env html) @ ''\<newline>'' @ ''</head>'' @ post))
    \<and> (\<not> sublist ''</head>'' html \<and> sublist ''</body>'' html \<longrightarrow>
           (\<exists>pre post. html = pre @ ''</body>'' @ post
              \<and> (\<forall>pre' post'. html = pre' @ ''</body>'' @ post' \<longrightarrow> length pre \<le> length pre')
              \<and> fst (processHtmlForDeps p env html)
                  = pre @ join ''\<newline>'' (scriptTags env html) @ ''\<newline>'' @ ''</body>'' @ post))
    \<and> (\<not> sublist ''</head>'' html \<and> \<not> sublist ''</body>'' html \<longrightarrow>
           fst (processHtmlForDeps p env html)
             = join ''\<newline>'' (scriptTags env html) @ ''\<newline>'' @ html)"
proof (intro conjI impI)
  let ?tags = "join ''\<newline>'' (scriptTags env html)"
  have nd: "CHR ''$'' \<notin> set (?tags @ ''\<newline>'' @ n)" if "CHR ''$'' \<notin> set n" for n
    using tags_no_dollar[OF assms(3), of html] that by simp
  {
    assume a: "sublist ''</head>'' html"
    then have i: "includes_str html ''</head>''" by (simp add: includes_str_sublist)
    from replace_leftmost[OF i nd[of "''</head>''"]] obtain pre post
      where "html = pre @ ''</head>'' @ post"
        and "\<forall>pre' post'. html = pre' @ ''</head>'' @ post' \<longrightarrow> length pre \<le> length pre'"
        and "replace html ''</head>'' (?tags @ ''\<newline>'' @ ''</head>'')
               = pre @ (?tags @ ''\<newline>'' @ ''</head>'') @ post"
      by auto
    moreover have "fst (processHtmlForDeps p env html)
               = replace html ''</head>'' (?tags @ ''\<newline>'' @ ''</head>'')"
      using i assms(1,2) by (simp add: processHtmlForDeps_def Let_def)
    ultimately show "\<exists>pre post. html = pre @ ''</head>'' @ post
              \<and> (\<forall>pre' post'. html = pre' @ ''</head>'' @ post' \<longrightarrow> length pre \<le> length pre')
              \<and> fst (processHtmlForDeps p env html)
                  = pre @ ?tags @ ''\<newline>'' @ ''</head>'' @ post"
      by (intro exI[of _ pre] exI[of _ post]) simp
  }
  {
    assume a: "\<not> sublist ''</head>'' html \<and> sublist ''</body>'' html"
    then have i: "includes_str html ''</body>''" and ni: "\<not> includes_str html ''</head>''"
      by (simp_all add: includes_str_sublist)
    from replace_leftmost[OF i nd[of "''</body>''"]] obtain pre post
      where "html = pre @ ''</body>'' @ post"
        and "\<forall>pre' post'. html = pre' @ ''</body>'' @ post' \<longrightarrow> length pre \<le> length pre'"
        and "replace html ''</body>'' (?tags @ ''\<newline>'' @ ''</body>'')
               = pre @ (?tags @ ''\<newline>'' @ ''</body>'') @ post"
      by auto
    moreover have "fst (processHtmlForDeps p env html)
               = replace html ''</body>'' (?tags @ ''\<newline>'' @ ''</body>'')"
      using i ni assms(1,2) by (simp add: processHtmlForDeps_def Let_def)
    ultimately show "\<exists>pre post. html = pre @ ''</body>'' @ post
              \<and> (\<forall>pre' post'. html = pre' @ ''</body>'' @ post' \<longrightarrow> length pre \<le> length pre')
              \<and> fst (processHtmlForDeps p env html)
                  = pre @ ?tags @ ''\<newline>'' @ ''</body>'' @ post"
      by (intro exI[of _ pre] exI[of _ post]) simp
  }
  {
    assume a: "\<not> sublist ''</head>'' html \<and> \<not> sublist ''</body>'' html"
    then show "fst (processHtmlForDeps p env html) = ?tags @ ''\<newline>'' @ html"
      using assms(1,2) by (simp add: processHtmlForDeps_def Let_def includes_str_sublist)
  }
qed

theorem injection_position_witness:
  "fst (processHtmlForDeps trusted_props imports_ok ''<head></head><p x-data></p>'')
     = ''<head>'' @ alpineTag ''blob:https://host/1f0e'' @ ''\<newline></head><p x-data></p>''
   \<and> fst (processHtmlForDeps trusted_props imports_ok ''<p x-data></p>'')
     = alpineTag ''blob:https://host/1f0e'' @ ''\<newline><p x-data></p>''"
proof -
  let ?h = "''<head></head><p x-data></p>''"
  let ?p = "''<p x-data></p>''"
  have h1: "allowSameOrigin trusted_props"
    by (simp add: trusted_props_def)
  have s: "scriptTags imports_ok ?h = [alpineTag ''blob:https://host/1f0e'']"
    "scriptTags imports_ok ?p = [alpineTag ''blob:https://host/1f0e'']"
    by (simp_all add: scriptTags_def alpine_block_def chart_block_def hasAlpineDirectives_def
          hasChartJsDirectives_def alpineDirectives_def chartJsDirectives_def imports_ok_def)
  have h2: "scriptTags imports_ok ?h \<noteq> []" "scriptTags imports_ok ?p \<noteq> []"
    unfolding s by simp_all
  have h3: "\<forall>url. alpine_import imports_ok = Some url \<longrightarrow> CHR ''$'' \<notin> set url"
    by (simp add: imports_ok_def)
  have a: "sublist ''</head>'' ?h"
    and c: "\<not> sublist ''</head>'' ?p \<and> \<not> sublist ''</body>'' ?p"
    by (simp_all flip: includes_str_sublist)
  from a injection_position[OF h1 h2(1) h3, THEN conjunct1]
  obtain pre post where e: "?h = pre @ ''</head>'' @ post"
    and m: "\<forall>pre' post'. ?h = pre' @ ''</head>'' @ post' \<longrightarrow> length pre \<le> length pre'"
    and o: "fst (processHtmlForDeps trusted_props imports_ok ?h)
              = pre @ join ''\<newline>'' (scriptTags imports_ok ?h) @ ''\<newline>'' @ ''</head>'' @ post"
    by blast
  have "?h = ''<head>'' @ ''</head>'' @ ''<p x-data></p>''" by simp
  with m have "length pre \<le> length ''<head>''" by blast
  then have le: "length pre \<le> 6" by simp
  from e have d: "drop (length pre) ?h = ''</head>'' @ post"
    by (metis append_eq_conv_conj)
  from d have t7: "take 7 (drop (length pre) ?h) = ''</head>''" by simp
  have l: "length pre = 6"
  proof (rule ccontr)
    assume "length pre \<noteq> 6"
    with le consider "length pre = 0" | "length pre = 1" | "length pre = 2"
      | "length pre = 3" | "length pre = 4" | "length pre = 5"
      by linarith
    then show False
    proof cases
      case 1 with t7 show False by simp
    next
      case 2 then show False using t7 by (simp only: ) simp
    next
      case 3 then show False using t7 by (simp only: ) simp
    next
      case 4 then show False using t7 by (simp only: ) simp
    next
      case 5 then show False using t7 by (simp only: ) simp
    next
      case 6 then show False using t7 by (simp only: ) simp
    qed
  qed
  from e have "pre = take (length pre) ?h"
    by (metis append_eq_conv_conj)
  with l have p1: "pre = ''<head>''" by simp
  from d l have p2: "post = ''<p x-data></p>''" by simp
  from o have c1: "fst (processHtmlForDeps trusted_props imports_ok ?h)
     = ''<head>'' @ alpineTag ''blob:https://host/1f0e'' @ ''\<newline></head><p x-data></p>''"
    unfolding p1 p2 s by simp
  from c injection_position[OF h1 h2(2) h3, THEN conjunct2, THEN conjunct2]
  have "fst (processHtmlForDeps trusted_props imports_ok ?p)
          = join ''\<newline>'' (scriptTags imports_ok ?p) @ ''\<newline>'' @ ?p"
    by blast
  then have c3: "fst (processHtmlForDeps trusted_props imports_ok ?p)
     = alpineTag ''blob:https://host/1f0e'' @ ''\<newline><p x-data></p>''"
    unfolding s by simp
  from c1 c3 show ?thesis by blast
qed

section \<open>Measuring a same-origin document\<close>

text \<open>
  C7. \<open>resizeSameOrigin\<close> never throws. It leaves \<open>containerHeight\<close> (and all the
  state) as it is when there is no iframe, when reading the document throws, when
  there is no document and when the larger of the two scroll heights is not positive;
  when an accessible document has a positive larger scroll height \<open>h\<close>, it sets
  \<open>containerHeight\<close> to \<open>h + 20\<close> and changes nothing else.
\<close>

theorem resizeSameOrigin_never_throws:
  "(\<exists>s'. resizeSameOrigin s = Inr s')
   \<and> (iframe s = None \<longrightarrow> resizeSameOrigin s = Inr s)
   \<and> (\<forall>f w ex. iframe s = Some f \<and> contentDocument f = None \<and> contentWindow f = Some w
          \<and> win_document w = Inl ex \<longrightarrow> resizeSameOrigin s = Inr s)
   \<and> (\<forall>f. iframe s = Some f \<and> contentDocument f = None \<and> contentWindow f = None
          \<longrightarrow> resizeSameOrigin s = Inr s)
   \<and> (\<forall>f doc. iframe s = Some f
          \<and> (contentDocument f = Some doc
              \<or> contentDocument f = None
                 \<and> (\<exists>w. contentWindow f = Some w \<and> win_document w = Inr doc))
          \<longrightarrow> resizeSameOrigin s =
                Inr (if 0 < max (scrollHeight_or_0 (documentElement doc))
                               (scrollHeight_or_0 (body doc))
                     then s\<lparr>containerHeight :=
                            Fin (real_of_int (max (scrollHeight_or_0 (documentElement doc))
                                                  (scrollHeight_or_0 (body doc))) + 20)\<rparr>
                     else s))"
proof (intro conjI allI impI)
  show "\<exists>s'. resizeSameOrigin s = Inr s'"
    by (simp add: resizeSameOrigin_def split: option.splits sum.splits)
  show "resizeSameOrigin s = Inr s" if "iframe s = None"
    using that by (simp add: resizeSameOrigin_def)
  show "resizeSameOrigin s = Inr s"
    if "iframe s = Some f \<and> contentDocument f = None \<and> contentWindow f = Some w
        \<and> win_document w = Inl ex" for f w ex
    using that by (simp add: resizeSameOrigin_def resizeSameOrigin_try_def iframe_doc_def)
  show "resizeSameOrigin s = Inr s"
    if "iframe s = Some f \<and> contentDocument f = None \<and> contentWindow f = None" for f
    using that by (simp add: resizeSameOrigin_def resizeSameOrigin_try_def iframe_doc_def)
  show "resizeSameOrigin s =
          Inr (if 0 < max (scrollHeight_or_0 (documentElement doc)) (scrollHeight_or_0 (body doc))
               then s\<lparr>containerHeight :=
                      Fin (real_of_int (max (scrollHeight_or_0 (documentElement doc))
                                            (scrollHeight_or_0 (body doc))) + 20)\<rparr>
               else s)"
    if h: "iframe s = Some f
        \<and> (contentDocument f = Some doc
            \<or> contentDocument f = None
               \<and> (\<exists>w. contentWindow f = Some w \<and> win_document w = Inr doc))" for f doc
  proof -
    from h have "iframe_doc f = Inr (Some doc)"
      by (auto simp: iframe_doc_def)
    with h show ?thesis
      by (simp add: resizeSameOrigin_def resizeSameOrigin_try_def Let_def)
  qed
qed

theorem resizeSameOrigin_never_throws_witness:
  "resizeSameOrigin (mounted cross_origin_iframe) = Inr (mounted cross_origin_iframe)
   \<and> resizeSameOrigin (mounted same_origin_iframe)
       = Inr ((mounted same_origin_iframe)\<lparr>containerHeight := Fin 520\<rparr>)"
proof -
  note t1 = resizeSameOrigin_never_throws[of "mounted cross_origin_iframe"]
  note t2 = resizeSameOrigin_never_throws[of "mounted same_origin_iframe"]
  have a: "iframe (mounted cross_origin_iframe) = Some cross_origin_iframe
        \<and> contentDocument cross_origin_iframe = None
        \<and> contentWindow cross_origin_iframe
            = Some \<lparr> win_id = 7, win_document = Inl SecurityError \<rparr>
        \<and> win_document \<lparr> win_id = 7, win_document = Inl SecurityError \<rparr> = Inl SecurityError"
    by (simp add: mounted_def cross_origin_iframe_def)
  from t1[THEN conjunct2, THEN conjunct2, THEN conjunct1] a
  have c1: "resizeSameOrigin (mounted cross_origin_iframe) = Inr (mounted cross_origin_iframe)"
    by blast
  have b: "iframe (mounted same_origin_iframe) = Some same_origin_iframe
        \<and> contentDocument same_origin_iframe = Some sample_document"
    by (simp add: mounted_def same_origin_iframe_def)
  from t2[THEN conjunct2, THEN conjunct2, THEN conjunct2, THEN conjunct2] b
  have "resizeSameOrigin (mounted same_origin_iframe) =
          Inr (if 0 < max (scrollHeight_or_0 (documentElement sample_document))
                         (scrollHeight_or_0 (body sample_document))
               then (mounted same_origin_iframe)\<lparr>containerHeight :=
                      Fin (real_of_int (max (scrollHeight_or_0 (documentElement sample_document))
                                            (scrollHeight_or_0 (body sample_document))) + 20)\<rparr>
               else mounted same_origin_iframe)"
    by blast
  then have c2: "resizeSameOrigin (mounted same_origin_iframe)
       = Inr ((mounted same_origin_iframe)\<lparr>containerHeight := Fin 520\<rparr>)"
    by (simp add: sample_document_def scrollHeight_or_0_def)
  from c1 c2 show ?thesis by blast
qed

section \<open>The message handler\<close>

lemma onMessage_passed:
  assumes "iframe s = Some f" and "source e = map_option win_id (contentWindow f)"
  shows "onMessage p s e =
     ((if get_prop (msg_data e) ''type'' = JString ''iframe:height''
       then (case get_prop (msg_data e) ''height'' of
               JNumber h \<Rightarrow> s\<lparr>containerHeight := Math_max (Fin 200) h\<rparr>
             | _ \<Rightarrow> s)
       else s),
      (if get_prop (msg_data e) ''type'' = JString ''pong''
       then ConsoleLog ''Received pong from iframe:'' (msg_data e)
              # post_to_iframe f (JObject [(''type'', JString ''pong:ack'')])
       else [])
      @ (if get_prop (msg_data e) ''type'' = JString ''payload''
         then post_to_iframe f
                (JObject [(''type'', JString ''payload''),
                          (''requestId'', nullish_or (get_prop (msg_data e) ''requestId'') JNull),
                          (''payload'', payload p)])
         else []))"
  unfolding onMessage_def Let_def using assms by simp

lemma onMessage_iframe: "iframe (fst (onMessage p s e)) = iframe s"
proof (cases "iframe s")
  case None
  then show ?thesis by (simp add: onMessage_def)
next
  case (Some f)
  show ?thesis
  proof (cases "source e = map_option win_id (contentWindow f)")
    case True
    show ?thesis unfolding onMessage_passed[OF Some True]
      by (cases "get_prop (msg_data e) ''height''") simp_all
  next
    case False
    with Some show ?thesis by (simp add: onMessage_def)
  qed
qed

lemma from_iframe_same: "iframe s' = iframe s \<Longrightarrow> from_iframe s' = from_iframe s"
  by (rule ext) (simp add: from_iframe_def)

lemma onMessage_not_from_iframe: "\<not> from_iframe s e \<Longrightarrow> onMessage p s e = (s, [])"
  by (simp add: onMessage_def from_iframe_def split: option.splits)

lemma onMessages_filter:
  "onMessages p s es = onMessages p s (filter (from_iframe s) es)"
proof (induction es arbitrary: s)
  case Nil
  show ?case by simp
next
  case (Cons e es)
  show ?case
  proof (cases "from_iframe s e")
    case True
    obtain s1 fx1 where o: "onMessage p s e = (s1, fx1)" by (cases "onMessage p s e")
    then have "iframe s1 = iframe s" using onMessage_iframe[of p s e] by simp
    then have "filter (from_iframe s) es = filter (from_iframe s1) es"
      using from_iframe_same[of s1 s] by simp
    with True o Cons.IH[of s1] show ?thesis by simp
  next
    case False
    with onMessage_not_from_iframe[OF False, of p] Cons.IH[of s] show ?thesis by simp
  qed
qed

text \<open>
  C8. A message event whose source is not the iframe's \<open>contentWindow\<close>, or that
  arrives while no iframe is mounted, has no effect: the state is unchanged and nothing
  is posted or logged. Hence two sequences of message events that agree on the events
  coming from the iframe lead to the same state and the same effects.
\<close>

theorem onMessage_ignores_other_sources:
  "(iframe s = None \<or> (\<exists>f. iframe s = Some f \<and> source e \<noteq> map_option win_id (contentWindow f))
      \<longrightarrow> onMessage p s e = (s, []))
   \<and> from_iframe s e
       = (\<exists>f. iframe s = Some f \<and> source e = map_option win_id (contentWindow f))
   \<and> onMessages p s es = onMessages p s (filter (from_iframe s) es)
   \<and> (filter (from_iframe s) es = filter (from_iframe s) es'
      \<longrightarrow> onMessages p s es = onMessages p s es')"
proof (intro conjI impI)
  show "onMessage p s e = (s, [])"
    if "iframe s = None \<or> (\<exists>f. iframe s = Some f \<and> source e \<noteq> map_option win_id (contentWindow f))"
    using that by (auto simp: onMessage_def)
  show "from_iframe s e
       = (\<exists>f. iframe s = Some f \<and> source e = map_option win_id (contentWindow f))"
    by (simp add: from_iframe_def split: option.splits)
  show "onMessages p s es = onMessages p s (filter (from_iframe s) es)"
    by (rule onMessages_filter)
  show "onMessages p s es = onMessages p s es'"
    if "filter (from_iframe s) es = filter (from_iframe s) es'"
    using that onMessages_filter[of p s es] onMessages_filter[of p s es'] by simp
qed

theorem onMessage_ignores_other_sources_witness:
  "onMessage default_props (mounted same_origin_iframe) \<lparr> source = Some 99, data = height_message \<rparr>
     = (mounted same_origin_iframe, [])
   \<and> onMessage default_props (init_state default_props) \<lparr> source = Some 7, data = pong_message \<rparr>
     = (init_state default_props, [])
   \<and> onMessages default_props (mounted same_origin_iframe)
        [\<lparr> source = Some 99, data = height_message \<rparr>, \<lparr> source = Some 7, data = pong_message \<rparr>,
         \<lparr> source = None, data = payload_request \<rparr>]
     = onMessages default_props (mounted same_origin_iframe)
        [\<lparr> source = Some 7, data = pong_message \<rparr>]"
proof -
  let ?s = "mounted same_origin_iframe"
  have a: "iframe ?s = None
     \<or> (\<exists>f. iframe ?s = Some f
            \<and> source \<lparr> source = Some 99, data = height_message \<rparr>
                 \<noteq> map_option win_id (contentWindow f))"
    by (simp add: mounted_def same_origin_iframe_def)
  have b: "iframe (init_state default_props) = None
     \<or> (\<exists>f. iframe (init_state default_props) = Some f
            \<and> source \<lparr> source = Some 7, data = pong_message \<rparr>
                 \<noteq> map_option win_id (contentWindow f))"
    by (simp add: init_state_def)
  have c: "filter (from_iframe ?s)
             [\<lparr> source = Some 99, data = height_message \<rparr>, \<lparr> source = Some 7, data = pong_message \<rparr>,
              \<lparr> source = None, data = payload_request \<rparr>]
           = filter (from_iframe ?s) [\<lparr> source = Some 7, data = pong_message \<rparr>]"
    by (simp add: from_iframe_def mounted_def same_origin_iframe_def)
  from onMessage_ignores_other_sources[THEN conjunct1] a
  have c1: "onMessage default_props ?s \<lparr> source = Some 99, data = height_message \<rparr> = (?s, [])"
    by blast
  from onMessage_ignores_other_sources[THEN conjunct1] b
  have c2: "onMessage default_props (init_state default_props)
              \<lparr> source = Some 7, data = pong_message \<rparr> = (init_state default_props, [])"
    by blast
  from onMessage_ignores_other_sources[THEN conjunct2, THEN conjunct2, THEN conjunct2] c
  have c3: "onMessages default_props ?s
        [\<lparr> source = Some 99, data = height_message \<rparr>, \<lparr> source = Some 7, data = pong_message \<rparr>,
         \<lparr> source = None, data = payload_request \<rparr>]
     = onMessages default_props ?s [\<lparr> source = Some 7, data = pong_message \<rparr>]"
    by blast
  from c1 c2 c3 show ?thesis by blast
qed

text \<open>
  C2. For a message event whose source is the iframe's \<open>contentWindow\<close>, with
  \<open>data\<close> the event's data (an empty object when that is falsy): type
  \<open>iframe:height\<close> with a number \<open>height\<close> sets \<open>containerHeight\<close> to
  \<open>Math.max(200, height)\<close>, which is the larger of 200 and the height when the height
  is finite, 200 for \<open>-Infinity\<close>, and the height itself for \<open>Infinity\<close> and \<open>NaN\<close>,
  and posts nothing; type \<open>pong\<close> leaves the state and posts \<open>{type: 'pong:ack'}\<close> to
  the iframe; type \<open>payload\<close> leaves the state and posts
  \<open>{type: 'payload', requestId, payload}\<close>, \<open>requestId\<close> being the request's, or
  \<open>null\<close> when it is absent, and \<open>payload\<close> the prop; any other message, and a height
  report whose \<open>height\<close> is no number, changes nothing and posts nothing.
\<close>

theorem onMessage_contract:
  assumes "iframe s = Some f" and "contentWindow f = Some w" and "source e = Some (win_id w)"
  shows "(\<forall>h. get_prop (msg_data e) ''type'' = JString ''iframe:height''
               \<and> get_prop (msg_data e) ''height'' = JNumber h
            \<longrightarrow> onMessage p s e = (s\<lparr>containerHeight := Math_max (Fin 200) h\<rparr>, []))
    \<and> (get_prop (msg_data e) ''type'' = JString ''iframe:height''
               \<and> (\<forall>h. get_prop (msg_data e) ''height'' \<noteq> JNumber h)
            \<longrightarrow> onMessage p s e = (s, []))
    \<and> (get_prop (msg_data e) ''type'' = JString ''pong''
            \<longrightarrow> onMessage p s e =
                  (s, [ConsoleLog ''Received pong from iframe:'' (msg_data e),
                       PostMessage (win_id w) (JObject [(''type'', JString ''pong:ack'')]) ''*'']))
    \<and> (get_prop (msg_data e) ''type'' = JString ''payload''
            \<longrightarrow> onMessage p s e =
                  (s, [PostMessage (win_id w)
                         (JObject [(''type'', JString ''payload''),
                                   (''requestId'',
                                      (case get_prop (msg_data e) ''requestId'' of
                                         JUndefined \<Rightarrow> JNull
                                       | v \<Rightarrow> v)),
                                   (''payload'', payload p)])
                         ''*'']))
    \<and> (get_prop (msg_data e) ''type'' \<noteq> JString ''iframe:height''
        \<and> get_prop (msg_data e) ''type'' \<noteq> JString ''pong''
        \<and> get_prop (msg_data e) ''type'' \<noteq> JString ''payload''
            \<longrightarrow> onMessage p s e = (s, []))
    \<and> (\<forall>h. get_prop (msg_data e) ''type'' = JString ''iframe:height''
               \<and> get_prop (msg_data e) ''height'' = JNumber (Fin h)
            \<longrightarrow> onMessage p s e = (s\<lparr>containerHeight := Fin (max 200 h)\<rparr>, [])
                \<and> 200 \<le> max 200 h \<and> h \<le> max 200 h \<and> (max 200 h = 200 \<or> max 200 h = h))
    \<and> (get_prop (msg_data e) ''type'' = JString ''iframe:height''
               \<and> get_prop (msg_data e) ''height'' = JNumber NegInf
            \<longrightarrow> onMessage p s e = (s\<lparr>containerHeight := Fin 200\<rparr>, []))
    \<and> (get_prop (msg_data e) ''type'' = JString ''iframe:height''
               \<and> get_prop (msg_data e) ''height'' = JNumber PosInf
            \<longrightarrow> onMessage p s e = (s\<lparr>containerHeight := PosInf\<rparr>, []))
    \<and> (get_prop (msg_data e) ''type'' = JString ''iframe:height''
               \<and> get_prop (msg_data e) ''height'' = JNumber NaN
            \<longrightarrow> onMessage p s e = (s\<lparr>containerHeight := NaN\<rparr>, []))"
proof -
  have g: "source e = map_option win_id (contentWindow f)"
    using assms(2,3) by simp
  note u = onMessage_passed[OF assms(1) g, of p]
  have n: "nullish_or v JNull = (case v of JUndefined \<Rightarrow> JNull | v \<Rightarrow> v)" for v
    by (cases v) simp_all
  show ?thesis
  proof (intro conjI allI impI)
    show "onMessage p s e = (s\<lparr>containerHeight := Math_max (Fin 200) h\<rparr>, [])"
      if "get_prop (msg_data e) ''type'' = JString ''iframe:height''
          \<and> get_prop (msg_data e) ''height'' = JNumber h" for h
      unfolding u using that by simp
    show "onMessage p s e = (s, [])"
      if "get_prop (msg_data e) ''type'' = JString ''iframe:height''
          \<and> (\<forall>h. get_prop (msg_data e) ''height'' \<noteq> JNumber h)"
      unfolding u using that by (cases "get_prop (msg_data e) ''height''") simp_all
    show "onMessage p s e =
            (s, [ConsoleLog ''Received pong from iframe:'' (msg_data e),
                 PostMessage (win_id w) (JObject [(''type'', JString ''pong:ack'')]) ''*''])"
      if "get_prop (msg_data e) ''type'' = JString ''pong''"
      unfolding u using that assms(2) by (simp add: post_to_iframe_def)
    show "onMessage p s e =
            (s, [PostMessage (win_id w)
                   (JObject [(''type'', JString ''payload''),
                             (''requestId'',
                                (case get_prop (msg_data e) ''requestId'' of
                                   JUndefined \<Rightarrow> JNull
                                 | v \<Rightarrow> v)),
                             (''payload'', payload p)])
                   ''*''])"
      if "get_prop (msg_data e) ''type'' = JString ''payload''"
      unfolding u using that assms(2) by (simp add: post_to_iframe_def n)
    show "onMessage p s e = (s, [])"
      if "get_prop (msg_data e) ''type'' \<noteq> JString ''iframe:height''
        \<and> get_prop (msg_data e) ''type'' \<noteq> JString ''pong''
        \<and> get_prop (msg_data e) ''type'' \<noteq> JString ''payload''"
      unfolding u using that by simp
    show "onMessage p s e = (s\<lparr>containerHeight := Fin (max 200 h)\<rparr>, [])"
      if "get_prop (msg_data e) ''type'' = JString ''iframe:height''
          \<and> get_prop (msg_data e) ''height'' = JNumber (Fin h)" for h
      unfolding u using that by simp
    show "200 \<le> max 200 h" "h \<le> max 200 h" "max 200 h = 200 \<or> max 200 h = h" for h :: real
      by (simp_all add: max_def)
    show "onMessage p s e = (s\<lparr>containerHeight := Fin 200\<rparr>, [])"
      if "get_prop (msg_data e) ''type'' = JString ''iframe:height''
          \<and> get_prop (msg_data e) ''height'' = JNumber NegInf"
      unfolding u using that by simp
    show "onMessage p s e = (s\<lparr>containerHeight := PosInf\<rparr>, [])"
      if "get_prop (msg_data e) ''type'' = JString ''iframe:height''
          \<and> get_prop (msg_data e) ''height'' = JNumber PosInf"
      unfolding u using that by simp
    show "onMessage p s e = (s\<lparr>containerHeight := NaN\<rparr>, [])"
      if "get_prop (msg_data e) ''type'' = JString ''iframe:height''
          \<and> get_prop (msg_data e) ''height'' = JNumber NaN"
      unfolding u using that by simp
  qed
qed

theorem onMessage_contract_witness:
  "onMessage (default_props\<lparr>payload := JString ''rows''\<rparr>) (mounted same_origin_iframe)
       \<lparr> source = Some 7, data = low_height_message \<rparr>
     = ((mounted same_origin_iframe)\<lparr>containerHeight := Fin 200\<rparr>, [])
   \<and> onMessage (default_props\<lparr>payload := JString ''rows''\<rparr>) (mounted same_origin_iframe)
       \<lparr> source = Some 7, data = height_message \<rparr>
     = ((mounted same_origin_iframe)\<lparr>containerHeight := Fin 900\<rparr>, [])
   \<and> onMessage (default_props\<lparr>payload := JString ''rows''\<rparr>) (mounted same_origin_iframe)
       \<lparr> source = Some 7,
         data = JObject [(''type'', JString ''iframe:height''), (''height'', JNumber NaN)] \<rparr>
     = ((mounted same_origin_iframe)\<lparr>containerHeight := NaN\<rparr>, [])
   \<and> onMessage (default_props\<lparr>payload := JString ''rows''\<rparr>) (mounted same_origin_iframe)
       \<lparr> source = Some 7, data = pong_message \<rparr>
     = (mounted same_origin_iframe,
        [ConsoleLog ''Received pong from iframe:'' pong_message,
         PostMessage 7 (JObject [(''type'', JString ''pong:ack'')]) ''*''])
   \<and> onMessage (default_props\<lparr>payload := JString ''rows''\<rparr>) (mounted same_origin_iframe)
       \<lparr> source = Some 7, data = payload_request \<rparr>
     = (mounted same_origin_iframe,
        [PostMessage 7
           (JObject [(''type'', JString ''payload''), (''requestId'', JNumber (Fin 3)),
                     (''payload'', JString ''rows'')])
           ''*''])
   \<and> onMessage (default_props\<lparr>payload := JString ''rows''\<rparr>) (mounted same_origin_iframe)
       \<lparr> source = Some 7, data = JObject [(''type'', JString ''payload'')] \<rparr>
     = (mounted same_origin_iframe,
        [PostMessage 7
           (JObject [(''type'', JString ''payload''), (''requestId'', JNull),
                     (''payload'', JString ''rows'')])
           ''*''])
   \<and> onMessage (default_props\<lparr>payload := JString ''rows''\<rparr>) (mounted same_origin_iframe)
       \<lparr> source = Some 7, data = other_message \<rparr>
     = (mounted same_origin_iframe, [])"
proof -
  let ?p = "default_props\<lparr>payload := JString ''rows''\<rparr>"
  let ?s = "mounted same_origin_iframe"
  let ?w = "\<lparr> win_id = 7, win_document = Inr sample_document \<rparr>"
  let ?nan = "JObject [(''type'', JString ''iframe:height''), (''height'', JNumber NaN)]"
  let ?bare = "JObject [(''type'', JString ''payload'')]"
  have a1: "iframe ?s = Some same_origin_iframe"
    by (simp add: mounted_def)
  have a2: "contentWindow same_origin_iframe = Some ?w"
    by (simp add: same_origin_iframe_def)
  have a3: "source \<lparr> source = Some 7, data = d \<rparr> = Some (win_id ?w)" for d
    by simp
  note t = onMessage_contract[OF a1 a2 a3, of _ ?p]
  note fin = t[THEN conjunct2, THEN conjunct2, THEN conjunct2, THEN conjunct2,
               THEN conjunct2, THEN conjunct1, rule_format, THEN conjunct1]
  note nan = t[THEN conjunct2, THEN conjunct2, THEN conjunct2, THEN conjunct2,
               THEN conjunct2, THEN conjunct2, THEN conjunct2, THEN conjunct2, rule_format]
  note pong = t[THEN conjunct2, THEN conjunct2, THEN conjunct1, rule_format]
  note pay = t[THEN conjunct2, THEN conjunct2, THEN conjunct2, THEN conjunct1, rule_format]
  note other = t[THEN conjunct2, THEN conjunct2, THEN conjunct2, THEN conjunct2,
                 THEN conjunct1, rule_format]
  have "get_prop (msg_data \<lparr> source = Some 7, data = low_height_message \<rparr>) ''type''
          = JString ''iframe:height''
        \<and> get_prop (msg_data \<lparr> source = Some 7, data = low_height_message \<rparr>) ''height''
          = JNumber (Fin 10)"
    by (simp add: msg_data_def low_height_message_def)
  from fin[OF this]
  have c0: "onMessage ?p ?s \<lparr> source = Some 7, data = low_height_message \<rparr>
              = (?s\<lparr>containerHeight := Fin 200\<rparr>, [])"
    by simp
  have "get_prop (msg_data \<lparr> source = Some 7, data = height_message \<rparr>) ''type''
          = JString ''iframe:height''
        \<and> get_prop (msg_data \<lparr> source = Some 7, data = height_message \<rparr>) ''height''
          = JNumber (Fin 900)"
    by (simp add: msg_data_def height_message_def)
  from fin[OF this]
  have c1: "onMessage ?p ?s \<lparr> source = Some 7, data = height_message \<rparr>
              = (?s\<lparr>containerHeight := Fin 900\<rparr>, [])"
    by simp
  have "get_prop (msg_data \<lparr> source = Some 7, data = ?nan \<rparr>) ''type''
          = JString ''iframe:height''
        \<and> get_prop (msg_data \<lparr> source = Some 7, data = ?nan \<rparr>) ''height'' = JNumber NaN"
    by (simp add: msg_data_def)
  from nan[OF this]
  have cn: "onMessage ?p ?s \<lparr> source = Some 7, data = ?nan \<rparr>
              = (?s\<lparr>containerHeight := NaN\<rparr>, [])" .
  have m2: "msg_data \<lparr> source = Some 7, data = pong_message \<rparr> = pong_message"
    by (simp add: msg_data_def pong_message_def)
  then have "get_prop (msg_data \<lparr> source = Some 7, data = pong_message \<rparr>) ''type''
          = JString ''pong''"
    by (simp add: pong_message_def)
  from pong[OF this]
  have c2: "onMessage ?p ?s \<lparr> source = Some 7, data = pong_message \<rparr>
              = (?s, [ConsoleLog ''Received pong from iframe:'' pong_message,
                      PostMessage 7 (JObject [(''type'', JString ''pong:ack'')]) ''*''])"
    by (simp add: m2)
  have m3: "msg_data \<lparr> source = Some 7, data = payload_request \<rparr> = payload_request"
    by (simp add: msg_data_def payload_request_def)
  then have "get_prop (msg_data \<lparr> source = Some 7, data = payload_request \<rparr>) ''type''
          = JString ''payload''"
    by (simp add: payload_request_def)
  from pay[OF this]
  have c3: "onMessage ?p ?s \<lparr> source = Some 7, data = payload_request \<rparr>
              = (?s, [PostMessage 7
                        (JObject [(''type'', JString ''payload''), (''requestId'', JNumber (Fin 3)),
                                  (''payload'', JString ''rows'')])
                        ''*''])"
    by (simp add: msg_data_def payload_request_def)
  have m4: "msg_data \<lparr> source = Some 7, data = ?bare \<rparr> = ?bare"
    by (simp add: msg_data_def)
  then have "get_prop (msg_data \<lparr> source = Some 7, data = ?bare \<rparr>) ''type''
          = JString ''payload''"
    by simp
  from pay[OF this]
  have c3': "onMessage ?p ?s \<lparr> source = Some 7, data = ?bare \<rparr>
              = (?s, [PostMessage 7
                        (JObject [(''type'', JString ''payload''), (''requestId'', JNull),
                                  (''payload'', JString ''rows'')])
                        ''*''])"
    by (simp add: msg_data_def)
  have "get_prop (msg_data \<lparr> source = Some 7, data = other_message \<rparr>) ''type''
            \<noteq> JString ''iframe:height''
        \<and> get_prop (msg_data \<lparr> source = Some 7, data = other_message \<rparr>) ''type''
            \<noteq> JString ''pong''
        \<and> get_prop (msg_data \<lparr> source = Some 7, data = other_message \<rparr>) ''type''
            \<noteq> JString ''payload''"
    by (simp add: msg_data_def other_message_def)
  from other[OF this]
  have c4: "onMessage ?p ?s \<lparr> source = Some 7, data = other_message \<rparr> = (?s, [])" .
  from c0 c1 cn c2 c3 c3' c4 show ?thesis by blast
qed

section \<open>The corner drag\<close>

lemma Math_max_not_below: "\<not> js_lt (Math_max (Fin a) x) (Fin a)"
  by (cases x) simp_all

lemma onDragStart_container: "container (onDragStart s e) = container s"
  by (simp add: onDragStart_def Let_def split: option.splits)

lemma onDragStart_height: "containerHeight (onDragStart s e) = containerHeight s"
  by (simp add: onDragStart_def Let_def split: option.splits)

lemma onDragStart_width:
  "containerWidth (onDragStart s e) =
     (case container s of
        Some c \<Rightarrow>
          if width_falsy (containerWidth s) then Some (Fin (real_of_int (offsetWidth c)))
          else containerWidth s
      | None \<Rightarrow> containerWidth s)"
  by (simp add: onDragStart_def Let_def split: option.splits)

lemma onDragMove_container: "container (onDragMove s e) = container s"
  by (simp add: onDragMove_def)

lemma onDragMove_height_not_below:
  "\<not> js_lt (containerHeight s) (Fin 200) \<Longrightarrow>
     \<not> js_lt (containerHeight (onDragMove s e)) (Fin 200)"
  by (simp add: onDragMove_def Math_max_not_below)

lemma onDragMove_width_not_below:
  "width_not_below 300 (containerWidth s) \<Longrightarrow>
     width_not_below 300 (containerWidth (onDragMove s e))"
  by (simp add: onDragMove_def Math_max_not_below)

lemma drag_step_container: "container (drag_step s ev) = container s"
  by (cases ev) (simp_all add: onDragStart_container onDragMove_container onDragEnd_def)

lemma foldl_drag_step_container: "container (foldl drag_step s evs) = container s"
  by (induction evs arbitrary: s) (simp_all add: drag_step_container)

lemma drag_step_height_not_below:
  "\<not> js_lt (containerHeight s) (Fin 200) \<Longrightarrow> \<not> js_lt (containerHeight (drag_step s ev)) (Fin 200)"
  by (cases ev) (simp_all add: onDragStart_height onDragMove_height_not_below onDragEnd_def)

lemma foldl_drag_step_height_not_below:
  "\<not> js_lt (containerHeight s) (Fin 200) \<Longrightarrow>
     \<not> js_lt (containerHeight (foldl drag_step s evs)) (Fin 200)"
  by (induction evs arbitrary: s) (simp_all add: drag_step_height_not_below)

lemma onDragStart_width_not_below:
  assumes "width_not_below 300 (containerWidth s)"
    and "\<forall>c. container s = Some c \<longrightarrow> 300 \<le> offsetWidth c"
  shows "width_not_below 300 (containerWidth (onDragStart s e))"
proof (cases "container s")
  case None
  with assms(1) show ?thesis unfolding onDragStart_width by simp
next
  case (Some c)
  with assms(2) have "300 \<le> offsetWidth c" by blast
  then have "width_not_below 300 (Some (Fin (real_of_int (offsetWidth c))))" by simp
  with Some assms(1) show ?thesis unfolding onDragStart_width by simp
qed

lemma drag_step_width_not_below:
  assumes "width_not_below 300 (containerWidth s)"
    and "\<forall>c. container s = Some c \<longrightarrow> 300 \<le> offsetWidth c"
  shows "width_not_below 300 (containerWidth (drag_step s ev))"
proof (cases ev)
  case (MouseDown e)
  with onDragStart_width_not_below[OF assms, of e] show ?thesis by simp
next
  case (MouseMove e)
  with onDragMove_width_not_below[OF assms(1), of e] show ?thesis by simp
next
  case MouseUp
  with assms(1) show ?thesis by (simp add: onDragEnd_def)
qed

lemma foldl_drag_step_width_not_below:
  assumes "width_not_below 300 (containerWidth s)"
    and "\<forall>c. container s = Some c \<longrightarrow> 300 \<le> offsetWidth c"
  shows "width_not_below 300 (containerWidth (foldl drag_step s evs))"
  using assms
proof (induction evs arbitrary: s)
  case Nil
  then show ?case by simp
next
  case (Cons ev evs)
  have "width_not_below 300 (containerWidth (drag_step s ev))"
    by (rule drag_step_width_not_below[OF Cons.prems])
  moreover have "\<forall>c. container (drag_step s ev) = Some c \<longrightarrow> 300 \<le> offsetWidth c"
    using Cons.prems(2) unfolding drag_step_container .
  ultimately show ?case using Cons.IH[of "drag_step s ev"] by simp
qed

text \<open>
  C9. While a drag is on, a \<open>mousemove\<close> sets \<open>containerHeight\<close> to
  \<open>Math.max(200, dragStartHeight + (clientY - dragStartY))\<close> and \<open>containerWidth\<close> to
  \<open>Math.max(300, dragStartWidth + (clientX - dragStartX))\<close>; on finite values these are
  the maxima of the real numbers. So after every \<open>mousemove\<close> of a drag, whatever events
  came before and wherever the pointer is, the height is not below 200 and the width not
  below 300; a height that is not below 200 stays so along every sequence of drag
  events, and so does a width not below 300 when the container (whose style has
  \<open>min-width:300px\<close>) is at least 300 wide.
\<close>

theorem onDragMove_clamps:
  "(isDragging s \<longrightarrow>
      containerHeight (onDragMove s e) =
        Math_max (Fin 200) (js_add (dragStartHeight s) (js_sub (Fin (clientY e)) (dragStartY s)))
      \<and> containerWidth (onDragMove s e) =
        Some (Math_max (Fin 300)
                (js_add (dragStartWidth s) (js_sub (Fin (clientX e)) (dragStartX s)))))
   \<and> (\<forall>h0 y0 w0 x0.
         isDragging s \<and> dragStartHeight s = Fin h0 \<and> dragStartY s = Fin y0
         \<and> dragStartWidth s = Fin w0 \<and> dragStartX s = Fin x0 \<longrightarrow>
           containerHeight (onDragMove s e) = Fin (max 200 (h0 + (clientY e - y0)))
           \<and> containerWidth (onDragMove s e) = Some (Fin (max 300 (w0 + (clientX e - x0)))))
   \<and> (\<forall>evs. isDragging (foldl drag_step s evs) \<longrightarrow>
         \<not> js_lt (containerHeight (foldl drag_step s (evs @ [MouseMove e]))) (Fin 200)
         \<and> containerWidth (foldl drag_step s (evs @ [MouseMove e])) \<noteq> None
         \<and> width_not_below 300 (containerWidth (foldl drag_step s (evs @ [MouseMove e]))))
   \<and> (\<forall>evs. \<not> js_lt (containerHeight s) (Fin 200) \<longrightarrow>
         \<not> js_lt (containerHeight (foldl drag_step s evs)) (Fin 200))
   \<and> (\<forall>evs. width_not_below 300 (containerWidth s)
           \<and> (\<forall>c. container s = Some c \<longrightarrow> 300 \<le> offsetWidth c) \<longrightarrow>
         width_not_below 300 (containerWidth (foldl drag_step s evs)))"
proof (intro conjI allI impI)
  show "containerHeight (onDragMove s e) =
        Math_max (Fin 200) (js_add (dragStartHeight s) (js_sub (Fin (clientY e)) (dragStartY s)))"
    if "isDragging s"
    using that by (simp add: onDragMove_def)
  show "containerWidth (onDragMove s e) =
        Some (Math_max (Fin 300)
                (js_add (dragStartWidth s) (js_sub (Fin (clientX e)) (dragStartX s))))"
    if "isDragging s"
    using that by (simp add: onDragMove_def)
next
  fix h0 y0 w0 x0
  assume a: "isDragging s \<and> dragStartHeight s = Fin h0 \<and> dragStartY s = Fin y0
         \<and> dragStartWidth s = Fin w0 \<and> dragStartX s = Fin x0"
  then show "containerHeight (onDragMove s e) = Fin (max 200 (h0 + (clientY e - y0)))"
    by (simp add: onDragMove_def js_sub_def)
  from a show "containerWidth (onDragMove s e) = Some (Fin (max 300 (w0 + (clientX e - x0))))"
    by (simp add: onDragMove_def js_sub_def)
next
  fix evs
  assume d: "isDragging (foldl drag_step s evs)"
  then show "\<not> js_lt (containerHeight (foldl drag_step s (evs @ [MouseMove e]))) (Fin 200)"
    by (simp add: onDragMove_def Math_max_not_below)
  from d show "containerWidth (foldl drag_step s (evs @ [MouseMove e])) \<noteq> None"
    by (simp add: onDragMove_def)
  from d show "width_not_below 300 (containerWidth (foldl drag_step s (evs @ [MouseMove e])))"
    by (simp add: onDragMove_def Math_max_not_below)
next
  fix evs
  assume "\<not> js_lt (containerHeight s) (Fin 200)"
  then show "\<not> js_lt (containerHeight (foldl drag_step s evs)) (Fin 200)"
    by (rule foldl_drag_step_height_not_below)
next
  fix evs
  assume a: "width_not_below 300 (containerWidth s)
           \<and> (\<forall>c. container s = Some c \<longrightarrow> 300 \<le> offsetWidth c)"
  show "width_not_below 300 (containerWidth (foldl drag_step s evs))"
    by (rule foldl_drag_step_width_not_below) (use a in blast)+
qed

lemma dragging_eval:
  "isDragging dragging \<and> dragStartHeight dragging = Fin 650 \<and> dragStartY dragging = Fin 100
   \<and> dragStartWidth dragging = Fin 640 \<and> dragStartX dragging = Fin 100"
  by (simp add: dragging_def onDragStart_def mounted_def init_state_def default_props_def
        width_falsy_def Let_def)

theorem onDragMove_clamps_witness:
  "isDragging dragging
   \<and> containerHeight (onDragMove dragging \<lparr> clientX = 50, clientY = - 1000 \<rparr>) = Fin 200
   \<and> containerWidth (onDragMove dragging \<lparr> clientX = 50, clientY = - 1000 \<rparr>) = Some (Fin 590)
   \<and> containerHeight (onDragMove dragging \<lparr> clientX = - 5000, clientY = 400 \<rparr>) = Fin 950
   \<and> containerWidth (onDragMove dragging \<lparr> clientX = - 5000, clientY = 400 \<rparr>) = Some (Fin 300)"
proof -
  note t1 = onDragMove_clamps[of dragging "\<lparr> clientX = 50, clientY = - 1000 \<rparr>",
              THEN conjunct2, THEN conjunct1, rule_format, OF dragging_eval]
  note t2 = onDragMove_clamps[of dragging "\<lparr> clientX = - 5000, clientY = 400 \<rparr>",
              THEN conjunct2, THEN conjunct1, rule_format, OF dragging_eval]
  from t1 t2 dragging_eval show ?thesis by simp
qed

section \<open>The isLoading store\<close>

lemma emit_loaded:
  "emit (snd createIsLoadingStore) ''loaded'' resources v = (resources = [])"
  by (simp add: emit_def createIsLoadingStore_def Object_keys_def)

lemma emit_failedLoading:
  "emit (snd createIsLoadingStore) ''failedLoading'' args v = True"
  by (simp add: emit_def createIsLoadingStore_def)

lemma emit_other:
  "ev \<noteq> ''loaded'' \<Longrightarrow> ev \<noteq> ''failedLoading'' \<Longrightarrow>
     emit (snd createIsLoadingStore) ev args v = v"
  by (simp add: emit_def createIsLoadingStore_def)

lemma isLoading_after_snoc:
  "isLoading_after (evs @ [(ev, arg)]) =
     emit (snd createIsLoadingStore) ev arg (isLoading_after evs)"
  by (simp add: isLoading_after_def)

lemma last_loading_event_snoc:
  "last_loading_event (evs @ [(ev, arg)]) =
     (if ev = ''loaded'' \<or> ev = ''failedLoading'' then Some (ev, arg)
      else last_loading_event evs)"
  by (simp add: last_loading_event_def Let_def)

lemma isLoading_after_last:
  "isLoading_after evs =
     (case last_loading_event evs of
        None \<Rightarrow> False
      | Some (ev, resources) \<Rightarrow> if ev = ''loaded'' then resources = [] else True)"
proof (induction evs rule: rev_induct)
  case Nil
  show ?case by (simp add: isLoading_after_def last_loading_event_def createIsLoadingStore_def)
next
  case (snoc x evs)
  obtain ev arg where x: "x = (ev, arg)" by (cases x)
  consider "ev = ''loaded''" | "ev = ''failedLoading''"
    | "ev \<noteq> ''loaded''" "ev \<noteq> ''failedLoading''" by blast
  then show ?case
  proof cases
    case 1
    then show ?thesis
      unfolding x isLoading_after_snoc last_loading_event_snoc by (simp add: emit_loaded)
  next
    case 2
    then show ?thesis
      unfolding x isLoading_after_snoc last_loading_event_snoc by (simp add: emit_failedLoading)
  next
    case 3
    then show ?thesis
      unfolding x isLoading_after_snoc last_loading_event_snoc
      using snoc.IH by (simp add: emit_other)
  qed
qed

text \<open>
  C6. The store starts at false. A \<open>loaded\<close> event sets it to true if and only if
  the resources object has no key; a \<open>failedLoading\<close> event sets it to true; an event
  of any other name leaves it. So after any sequence of events the store holds what the
  last \<open>loaded\<close> or \<open>failedLoading\<close> event of the sequence made of it, and false if
  there was none.
\<close>

theorem isLoading_follows_events:
  "fst createIsLoadingStore = False
   \<and> isLoading_after [] = False
   \<and> emit (snd createIsLoadingStore) ''loaded'' resources v = (length (Object_keys resources) = 0)
   \<and> (length (Object_keys resources) = 0) = (\<forall>k. map_of resources k = None)
   \<and> emit (snd createIsLoadingStore) ''failedLoading'' args v = True
   \<and> (ev \<noteq> ''loaded'' \<and> ev \<noteq> ''failedLoading'' \<longrightarrow>
         emit (snd createIsLoadingStore) ev args v = v)
   \<and> isLoading_after (evs @ [(ev, args)]) =
         emit (snd createIsLoadingStore) ev args (isLoading_after evs)
   \<and> isLoading_after evs =
         (case last_loading_event evs of
            None \<Rightarrow> False
          | Some (ev', resources') \<Rightarrow>
              if ev' = ''loaded'' then length (Object_keys resources') = 0 else True)"
proof -
  have k: "(length (Object_keys r) = 0) = (r = [])" for r
    by (simp add: Object_keys_def)
  have m: "(r = []) = (\<forall>k. map_of r k = None)" for r :: js_object
    by (cases r) auto
  show ?thesis
    unfolding k
    using emit_loaded[of resources v] emit_failedLoading[of args v] emit_other[of ev args v]
      isLoading_after_snoc[of evs ev args] isLoading_after_last[of evs] m[of resources]
    by (simp add: createIsLoadingStore_def isLoading_after_def)
qed

theorem isLoading_follows_events_witness:
  "isLoading_after [(''initialized'', []), (''loaded'', []), (''languageChanged'', [])] = True
   \<and> isLoading_after [(''failedLoading'', []), (''loaded'', [(''en-US'', JObject [])])] = False
   \<and> isLoading_after [(''loaded'', [(''en-US'', JObject [])]), (''failedLoading'', []),
                        (''added'', [])] = True"
proof -
  have l1: "last_loading_event [(''initialized'', []), (''loaded'', []), (''languageChanged'', [])]
              = Some (''loaded'', [])"
    by (simp add: last_loading_event_def)
  have l2: "last_loading_event [(''failedLoading'', []), (''loaded'', [(''en-US'', JObject [])])]
              = Some (''loaded'', [(''en-US'', JObject [])])"
    by (simp add: last_loading_event_def)
  have l3: "last_loading_event [(''loaded'', [(''en-US'', JObject [])]), (''failedLoading'', []),
                        (''added'', [])] = Some (''failedLoading'', [])"
    by (simp add: last_loading_event_def)
  note t = isLoading_follows_events[THEN conjunct2, THEN conjunct2, THEN conjunct2,
             THEN conjunct2, THEN conjunct2, THEN conjunct2, THEN conjunct2]
  from t[of "[(''initialized'', []), (''loaded'', []), (''languageChanged'', [])]"]
       t[of "[(''failedLoading'', []), (''loaded'', [(''en-US'', JObject [])])]"]
       t[of "[(''loaded'', [(''en-US'', JObject [])]), (''failedLoading'', []), (''added'', [])]"]
  show ?thesis
    unfolding l1 l2 l3 by (simp add: Object_keys_def)
qed

section \<open>Signing in and signing up\<close>

lemma setSessionUser_null: "setSessionUser env None rp = ([], Resolved ())"
  by (simp add: setSessionUser_def)

lemma setSessionUser_resolved:
  "getBackendConfig env = Resolved cfg \<Longrightarrow>
     setSessionUser env (Some u) None =
       ([ConsoleLogUser u, ToastSuccess (i18n_t env ''You're now logged in.'')]
        @ (if str_truthy (token u) then [LocalStorageSetToken (the (token u))] else [])
        @ [SocketEmitUserJoin (token u), UserSet u, ConfigSet cfg]
        @ (if str_truthy (token u) \<and> getUserTimezone env \<noteq> []
           then [UpdateUserTimezone (the (token u)) (getUserTimezone env)] else [])
        @ [Goto (str_or (redirect_param env) ''/''), LocalStorageRemoveItem ''redirectPath''],
        Resolved ())"
  by (simp add: setSessionUser_def Let_def)

lemma setSessionUser_config_rejected:
  "getBackendConfig env = Rejected err \<Longrightarrow>
     setSessionUser env (Some u) None =
       ([ConsoleLogUser u, ToastSuccess (i18n_t env ''You're now logged in.'')]
        @ (if str_truthy (token u) then [LocalStorageSetToken (the (token u))] else [])
        @ [SocketEmitUserJoin (token u), UserSet u],
        Rejected err)"
  by (simp add: setSessionUser_def Let_def)

lemma str_truthy_iff: "str_truthy a \<and> tok = the a \<longleftrightarrow> a = Some tok \<and> tok \<noteq> []"
  by (cases a) auto

lemma str_or_redirect:
  "str_or r ''/'' = (case r of Some x \<Rightarrow> if x = [] then ''/'' else x | None \<Rightarrow> ''/'')"
  by (cases r) (simp_all add: str_or_def)

lemma session_established:
  assumes "getBackendConfig env = Resolved cfg"
  shows "\<exists>fx. setSessionUser env (Some u) None = (fx, Resolved ())
           \<and> (\<forall>tok. LocalStorageSetToken tok \<in> set fx \<longleftrightarrow> token u = Some tok \<and> tok \<noteq> [])
           \<and> UserSet u \<in> set fx
           \<and> (\<forall>path. Goto path \<in> set fx \<longleftrightarrow>
                 path = (case redirect_param env of
                           Some r \<Rightarrow> if r = [] then ''/'' else r
                         | None \<Rightarrow> ''/''))"
proof -
  have t: "(str_truthy (token u) \<and> tok = the (token u)) = (token u = Some tok \<and> tok \<noteq> [])" for tok
    by (rule str_truthy_iff)
  show ?thesis
    unfolding setSessionUser_resolved[OF assms] str_or_redirect
    by (intro exI conjI allI, rule refl) (auto simp: t[symmetric])
qed

lemma session_without_config:
  assumes "getBackendConfig env = Rejected err"
  shows "\<exists>fx. setSessionUser env (Some u) None = (fx, Rejected err)
           \<and> (\<forall>tok. LocalStorageSetToken tok \<in> set fx \<longleftrightarrow> token u = Some tok \<and> tok \<noteq> [])
           \<and> UserSet u \<in> set fx
           \<and> (\<forall>path. Goto path \<notin> set fx)"
proof -
  have t: "(str_truthy (token u) \<and> tok = the (token u)) = (token u = Some tok \<and> tok \<noteq> [])" for tok
    by (rule str_truthy_iff)
  show ?thesis
    unfolding setSessionUser_config_rejected[OF assms]
    by (intro exI conjI allI, rule refl) (auto simp: t[symmetric])
qed

text \<open>
  C3, as the specification states it: on a successful sign-in the page navigates to the
  URL's \<open>redirect\<close> parameter if it is present. It fails for a parameter that is present
  and empty (\<open>?redirect=\<close>): \<open>get('redirect') || '/'\<close> is then \<open>'/'\<close>.
\<close>

theorem empty_redirect_counterexample:
  "redirect_param (auth_env_ok (Some '''')) = Some ''''
   \<and> userSignIn (auth_env_ok (Some '''')) (email sample_form) (password sample_form)
       = Resolved (Some sample_user)
   \<and> signInHandler (auth_env_ok (Some '''')) sample_form =
       ([ConsoleLogUser sample_user, ToastSuccess ''You're now logged in.'',
         LocalStorageSetToken ''tok'', SocketEmitUserJoin (Some ''tok''), UserSet sample_user,
         ConfigSet (JObject []), UpdateUserTimezone ''tok'' ''Europe/Paris'',
         Goto ''/'', LocalStorageRemoveItem ''redirectPath''],
        Resolved ())"
  by (simp add: auth_env_ok_def sample_user_def sample_form_def signInHandler_def
        setSessionUser_def str_or_def Let_def)

text \<open>
  C3, amended. When the auth API returns a session user, sign-in and sign-up (the
  latter once the password confirmation, if enabled, has passed) store the token in
  localStorage exactly when it is there and not empty, set the user store and, if the
  backend configuration then loads, navigate once: to the URL's \<open>redirect\<close> parameter
  if it is present and not empty, otherwise to \<open>/\<close>. If the configuration fails to
  load, the token and the user are set and there is no navigation. When the auth API
  call rejects, the error toast is the only effect.
\<close>

theorem sign_in_and_sign_up_outcomes:
  "(\<forall>u cfg. userSignIn env (email form) (password form) = Resolved (Some u)
             \<and> getBackendConfig env = Resolved cfg \<longrightarrow>
      (\<exists>fx. signInHandler env form = (fx, Resolved ())
         \<and> (\<forall>tok. LocalStorageSetToken tok \<in> set fx \<longleftrightarrow> token u = Some tok \<and> tok \<noteq> [])
         \<and> UserSet u \<in> set fx
         \<and> (\<forall>path. Goto path \<in> set fx \<longleftrightarrow>
               path = (case redirect_param env of
                         Some r \<Rightarrow> if r = [] then ''/'' else r
                       | None \<Rightarrow> ''/''))))
   \<and> (\<forall>u err. userSignIn env (email form) (password form) = Resolved (Some u)
             \<and> getBackendConfig env = Rejected err \<longrightarrow>
      (\<exists>fx. signInHandler env form = (fx, Rejected err)
         \<and> (\<forall>tok. LocalStorageSetToken tok \<in> set fx \<longleftrightarrow> token u = Some tok \<and> tok \<noteq> [])
         \<and> UserSet u \<in> set fx
         \<and> (\<forall>path. Goto path \<notin> set fx)))
   \<and> (\<forall>err. userSignIn env (email form) (password form) = Rejected err \<longrightarrow>
         signInHandler env form = ([ToastError err], Resolved ()))
   \<and> (\<forall>u cfg. \<not> (enable_signup_password_confirmation env \<and> password form \<noteq> confirmPassword form)
             \<and> userSignUp env (name form) (email form) (password form)
                  (generateInitialsImage env (name form)) = Resolved (Some u)
             \<and> getBackendConfig env = Resolved cfg \<longrightarrow>
      (\<exists>fx. signUpHandler env form = (fx, Resolved ())
         \<and> (\<forall>tok. LocalStorageSetToken tok \<in> set fx \<longleftrightarrow> token u = Some tok \<and> tok \<noteq> [])
         \<and> UserSet u \<in> set fx
         \<and> (\<forall>path. Goto path \<in> set fx \<longleftrightarrow>
               path = (case redirect_param env of
                         Some r \<Rightarrow> if r = [] then ''/'' else r
                       | None \<Rightarrow> ''/''))))
   \<and> (\<forall>u err. \<not> (enable_signup_password_confirmation env \<and> password form \<noteq> confirmPassword form)
             \<and> userSignUp env (name form) (email form) (password form)
                  (generateInitialsImage env (name form)) = Resolved (Some u)
             \<and> getBackendConfig env = Rejected err \<longrightarrow>
      (\<exists>fx. signUpHandler env form = (fx, Rejected err)
         \<and> (\<forall>tok. LocalStorageSetToken tok \<in> set fx \<longleftrightarrow> token u = Some tok \<and> tok \<noteq> [])
         \<and> UserSet u \<in> set fx
         \<and> (\<forall>path. Goto path \<notin> set fx)))
   \<and> (\<forall>err. \<not> (enable_signup_password_confirmation env \<and> password form \<noteq> confirmPassword form)
             \<and> userSignUp env (name form) (email form) (password form)
                  (generateInitialsImage env (name form)) = Rejected err \<longrightarrow>
         signUpHandler env form = ([ToastError err], Resolved ()))"
proof (intro conjI allI impI)
  fix u cfg
  assume a: "userSignIn env (email form) (password form) = Resolved (Some u)
             \<and> getBackendConfig env = Resolved cfg"
  then have "signInHandler env form = setSessionUser env (Some u) None"
    by (simp add: signInHandler_def)
  with session_established[of env cfg u] a
  show "\<exists>fx. signInHandler env form = (fx, Resolved ())
         \<and> (\<forall>tok. LocalStorageSetToken tok \<in> set fx \<longleftrightarrow> token u = Some tok \<and> tok \<noteq> [])
         \<and> UserSet u \<in> set fx
         \<and> (\<forall>path. Goto path \<in> set fx \<longleftrightarrow>
               path = (case redirect_param env of
                         Some r \<Rightarrow> if r = [] then ''/'' else r
                       | None \<Rightarrow> ''/''))"
    by simp
next
  fix u err
  assume a: "userSignIn env (email form) (password form) = Resolved (Some u)
             \<and> getBackendConfig env = Rejected err"
  then have "signInHandler env form = setSessionUser env (Some u) None"
    by (simp add: signInHandler_def)
  with session_without_config[of env err u] a
  show "\<exists>fx. signInHandler env form = (fx, Rejected err)
         \<and> (\<forall>tok. LocalStorageSetToken tok \<in> set fx \<longleftrightarrow> token u = Some tok \<and> tok \<noteq> [])
         \<and> UserSet u \<in> set fx
         \<and> (\<forall>path. Goto path \<notin> set fx)"
    by simp
next
  fix err
  assume "userSignIn env (email form) (password form) = Rejected err"
  then show "signInHandler env form = ([ToastError err], Resolved ())"
    by (simp add: signInHandler_def setSessionUser_null)
next
  fix u cfg
  assume a: "\<not> (enable_signup_password_confirmation env \<and> password form \<noteq> confirmPassword form)
             \<and> userSignUp env (name form) (email form) (password form)
                  (generateInitialsImage env (name form)) = Resolved (Some u)
             \<and> getBackendConfig env = Resolved cfg"
  then have "signUpHandler env form = setSessionUser env (Some u) None"
    by (auto simp: signUpHandler_def)
  with session_established[of env cfg u] a
  show "\<exists>fx. signUpHandler env form = (fx, Resolved ())
         \<and> (\<forall>tok. LocalStorageSetToken tok \<in> set fx \<longleftrightarrow> token u = Some tok \<and> tok \<noteq> [])
         \<and> UserSet u \<in> set fx
         \<and> (\<forall>path. Goto path \<in> set fx \<longleftrightarrow>
               path = (case redirect_param env of
                         Some r \<Rightarrow> if r = [] then ''/'' else r
                       | None \<Rightarrow> ''/''))"
    by simp
next
  fix u err
  assume a: "\<not> (enable_signup_password_confirmation env \<and> password form \<noteq> confirmPassword form)
             \<and> userSignUp env (name form) (email form) (password form)
                  (generateInitialsImage env (name form)) = Resolved (Some u)
             \<and> getBackendConfig env = Rejected err"
  then have "signUpHandler env form = setSessionUser env (Some u) None"
    by (auto simp: signUpHandler_def)
  with session_without_config[of env err u] a
  show "\<exists>fx. signUpHandler env form = (fx, Rejected err)
         \<and> (\<forall>tok. LocalStorageSetToken tok \<in> set fx \<longleftrightarrow> token u = Some tok \<and> tok \<noteq> [])
         \<and> UserSet u \<in> set fx
         \<and> (\<forall>path. Goto path \<notin> set fx)"
    by simp
next
  fix err
  assume "\<not> (enable_signup_password_confirmation env \<and> password form \<noteq> confirmPassword form)
             \<and> userSignUp env (name form) (email form) (password form)
                  (generateInitialsImage env (name form)) = Rejected err"
  then show "signUpHandler env form = ([ToastError err], Resolved ())"
    by (auto simp: signUpHandler_def setSessionUser_null)
qed

theorem sign_in_and_sign_up_outcomes_witness:
  "(\<exists>fx. signInHandler (auth_env_ok (Some ''/c/42'')) sample_form = (fx, Resolved ())
       \<and> LocalStorageSetToken ''tok'' \<in> set fx \<and> UserSet sample_user \<in> set fx
       \<and> Goto ''/c/42'' \<in> set fx \<and> Goto ''/'' \<notin> set fx)
   \<and> (\<exists>fx. signUpHandler (auth_env_ok None) sample_form = (fx, Resolved ())
       \<and> LocalStorageSetToken ''tok'' \<in> set fx \<and> UserSet sample_user \<in> set fx
       \<and> Goto ''/'' \<in> set fx)
   \<and> signInHandler auth_env_rejecting sample_form
       = ([ToastError ''Error: wrong password''], Resolved ())
   \<and> signUpHandler auth_env_rejecting sample_form
       = ([ToastError ''Error: email taken''], Resolved ())"
proof -
  let ?e = "auth_env_ok (Some ''/c/42'')"
  have a: "userSignIn ?e (email sample_form) (password sample_form) = Resolved (Some sample_user)
           \<and> getBackendConfig ?e = Resolved (JObject [])"
    by (simp add: auth_env_ok_def)
  from sign_in_and_sign_up_outcomes[of ?e sample_form, THEN conjunct1, rule_format, OF a]
  obtain fx where f: "signInHandler ?e sample_form = (fx, Resolved ())"
    and f1: "\<forall>tok. LocalStorageSetToken tok \<in> set fx \<longleftrightarrow> token sample_user = Some tok \<and> tok \<noteq> []"
    and f2: "UserSet sample_user \<in> set fx"
    and f3: "\<forall>path. Goto path \<in> set fx \<longleftrightarrow>
               path = (case redirect_param ?e of
                         Some r \<Rightarrow> if r = [] then ''/'' else r
                       | None \<Rightarrow> ''/'')"
    by blast
  from f1 have g1: "LocalStorageSetToken ''tok'' \<in> set fx"
    by (simp add: sample_user_def)
  from f3 have g3: "Goto ''/c/42'' \<in> set fx \<and> Goto ''/'' \<notin> set fx"
    by (simp add: auth_env_ok_def)
  from f g1 f2 g3 have c1: "\<exists>fx. signInHandler ?e sample_form = (fx, Resolved ())
       \<and> LocalStorageSetToken ''tok'' \<in> set fx \<and> UserSet sample_user \<in> set fx
       \<and> Goto ''/c/42'' \<in> set fx \<and> Goto ''/'' \<notin> set fx"
    by blast
  let ?n = "auth_env_ok None"
  have b: "\<not> (enable_signup_password_confirmation ?n
                \<and> password sample_form \<noteq> confirmPassword sample_form)
           \<and> userSignUp ?n (name sample_form) (email sample_form) (password sample_form)
                (generateInitialsImage ?n (name sample_form)) = Resolved (Some sample_user)
           \<and> getBackendConfig ?n = Resolved (JObject [])"
    by (simp add: auth_env_ok_def sample_form_def)
  from sign_in_and_sign_up_outcomes[of ?n sample_form, THEN conjunct2, THEN conjunct2,
         THEN conjunct2, THEN conjunct1, rule_format, OF b]
  obtain fx' where h: "signUpHandler ?n sample_form = (fx', Resolved ())"
    and h1: "\<forall>tok. LocalStorageSetToken tok \<in> set fx' \<longleftrightarrow> token sample_user = Some tok \<and> tok \<noteq> []"
    and h2: "UserSet sample_user \<in> set fx'"
    and h3: "\<forall>path. Goto path \<in> set fx' \<longleftrightarrow>
               path = (case redirect_param ?n of
                         Some r \<Rightarrow> if r = [] then ''/'' else r
                       | None \<Rightarrow> ''/'')"
    by blast
  from h1 have k1: "LocalStorageSetToken ''tok'' \<in> set fx'"
    by (simp add: sample_user_def)
  from h3 have k3: "Goto ''/'' \<in> set fx'"
    by (simp add: auth_env_ok_def)
  from h k1 h2 k3 have c2: "\<exists>fx. signUpHandler ?n sample_form = (fx, Resolved ())
       \<and> LocalStorageSetToken ''tok'' \<in> set fx \<and> UserSet sample_user \<in> set fx
       \<and> Goto ''/'' \<in> set fx"
    by blast
  have r1: "userSignIn auth_env_rejecting (email sample_form) (password sample_form)
              = Rejected ''Error: wrong password''"
    by (simp add: auth_env_rejecting_def auth_env_ok_def)
  from sign_in_and_sign_up_outcomes[of auth_env_rejecting sample_form, THEN conjunct2,
         THEN conjunct2, THEN conjunct1, rule_format, OF r1]
  have c3: "signInHandler auth_env_rejecting sample_form
       = ([ToastError ''Error: wrong password''], Resolved ())" .
  have r2: "\<not> (enable_signup_password_confirmation auth_env_rejecting
                \<and> password sample_form \<noteq> confirmPassword sample_form)
           \<and> userSignUp auth_env_rejecting (name sample_form) (email sample_form)
                (password sample_form)
                (generateInitialsImage auth_env_rejecting (name sample_form))
               = Rejected ''Error: email taken''"
    by (simp add: auth_env_rejecting_def auth_env_ok_def sample_form_def)
  from sign_in_and_sign_up_outcomes[of auth_env_rejecting sample_form, THEN conjunct2,
         THEN conjunct2, THEN conjunct2, THEN conjunct2, THEN conjunct2, rule_format, OF r2]
  have c4: "signUpHandler auth_env_rejecting sample_form
       = ([ToastError ''Error: email taken''], Resolved ())" .
  from c1 c2 c3 c4 show ?thesis by blast
qed

end
